theory Spec2Isabelle
  imports Complex_Main
begin

section \<open>Values of type double\<close>

text \<open>
  The sampler computes with C++ \<open>double\<close>. A double is modelled as a real number or one
  of the three special values of IEEE 754. Finite arithmetic is exact (no rounding, no
  overflow to infinity, one zero); the special values follow IEEE 754 and the C library:
  \<open>log\<close> of a negative number is NaN, \<open>log 0\<close> is minus infinity, every comparison with
  NaN is false. A division by zero takes the divisor to be +0. The one place where the
  rounding of a product decides a branch or an index, \<open>floor(m * 100)\<close> in the delay
  lookups, uses the product rounded to binary64 (\<open>dmul64\<close> below).
\<close>

datatype double = Fin real | PInf | NInf | NaN

fun isfinite :: "double \<Rightarrow> bool" where
  "isfinite (Fin a) = True"
| "isfinite PInf = False"
| "isfinite NInf = False"
| "isfinite NaN = False"

fun dneg :: "double \<Rightarrow> double" where
  "dneg (Fin a) = Fin (- a)"
| "dneg PInf = NInf"
| "dneg NInf = PInf"
| "dneg NaN = NaN"

fun dadd :: "double \<Rightarrow> double \<Rightarrow> double" where
  "dadd (Fin a) (Fin b) = Fin (a + b)"
| "dadd (Fin a) PInf = PInf"
| "dadd (Fin a) NInf = NInf"
| "dadd PInf (Fin b) = PInf"
| "dadd PInf PInf = PInf"
| "dadd PInf NInf = NaN"
| "dadd NInf (Fin b) = NInf"
| "dadd NInf PInf = NaN"
| "dadd NInf NInf = NInf"
| "dadd NaN y = NaN"
| "dadd x NaN = NaN"

definition dsub :: "double \<Rightarrow> double \<Rightarrow> double" where
  "dsub x y = dadd x (dneg y)"

text \<open>The sign of a real, for the products and quotients with an infinity.\<close>

definition inf_signed :: "real \<Rightarrow> double \<Rightarrow> double" where
  "inf_signed a x = (if a > 0 then x else if a < 0 then dneg x else NaN)"

fun dmul :: "double \<Rightarrow> double \<Rightarrow> double" where
  "dmul (Fin a) (Fin b) = Fin (a * b)"
| "dmul (Fin a) PInf = inf_signed a PInf"
| "dmul (Fin a) NInf = inf_signed a NInf"
| "dmul PInf (Fin b) = inf_signed b PInf"
| "dmul NInf (Fin b) = inf_signed b NInf"
| "dmul PInf PInf = PInf"
| "dmul PInf NInf = NInf"
| "dmul NInf PInf = NInf"
| "dmul NInf NInf = PInf"
| "dmul NaN y = NaN"
| "dmul x NaN = NaN"

fun ddiv :: "double \<Rightarrow> double \<Rightarrow> double" where
  "ddiv (Fin a) (Fin b) = (if b = 0 then inf_signed a PInf else Fin (a / b))"
| "ddiv (Fin a) PInf = Fin 0"
| "ddiv (Fin a) NInf = Fin 0"
| "ddiv PInf (Fin b) = (if b < 0 then NInf else PInf)"
| "ddiv NInf (Fin b) = (if b < 0 then PInf else NInf)"
| "ddiv PInf PInf = NaN"
| "ddiv PInf NInf = NaN"
| "ddiv NInf PInf = NaN"
| "ddiv NInf NInf = NaN"
| "ddiv NaN y = NaN"
| "ddiv x NaN = NaN"

fun dexp :: "double \<Rightarrow> double" where
  "dexp (Fin a) = Fin (exp a)"
| "dexp PInf = PInf"
| "dexp NInf = Fin 0"
| "dexp NaN = NaN"

fun dlog :: "double \<Rightarrow> double" where
  "dlog (Fin a) = (if a < 0 then NaN else if a = 0 then NInf else Fin (ln a))"
| "dlog PInf = PInf"
| "dlog NInf = NaN"
| "dlog NaN = NaN"

fun dsqrt :: "double \<Rightarrow> double" where
  "dsqrt (Fin a) = (if a < 0 then NaN else Fin (sqrt a))"
| "dsqrt PInf = PInf"
| "dsqrt NInf = NaN"
| "dsqrt NaN = NaN"

fun dfloor :: "double \<Rightarrow> double" where
  "dfloor (Fin a) = Fin (of_int \<lfloor>a\<rfloor>)"
| "dfloor PInf = PInf"
| "dfloor NInf = NInf"
| "dfloor NaN = NaN"

fun dless :: "double \<Rightarrow> double \<Rightarrow> bool" where
  "dless (Fin a) (Fin b) = (a < b)"
| "dless (Fin a) PInf = True"
| "dless NInf (Fin b) = True"
| "dless NInf PInf = True"
| "dless x y = False"

definition dgreater :: "double \<Rightarrow> double \<Rightarrow> bool" where
  "dgreater x y = dless y x"

text \<open>The conversion of an \<open>int\<close> to double.\<close>

definition of_cint :: "int \<Rightarrow> double" where
  "of_cint n = Fin (of_int n)"

text \<open>
  \<open>pow(x, y)\<close> of the C library: \<open>pow(x, 0)\<close> and \<open>pow(1, y)\<close> are 1 for every
  argument, a zero base gives 0 for a positive exponent and infinity for a negative one,
  a negative base is defined for integral exponents only.
\<close>

definition dpow :: "double \<Rightarrow> double \<Rightarrow> double" where
  "dpow x y =
     (if y = Fin 0 \<or> x = Fin 1 then Fin 1
      else case x of
        NaN \<Rightarrow> NaN
      | Fin a \<Rightarrow>
          (case y of
             NaN \<Rightarrow> NaN
           | Fin b \<Rightarrow>
               if a > 0 then Fin (a powr b)
               else if a = 0 then (if b > 0 then Fin 0 else PInf)
               else if of_int \<lfloor>b\<rfloor> = b then Fin (a powi \<lfloor>b\<rfloor>)
               else NaN
           | PInf \<Rightarrow> if \<bar>a\<bar> < 1 then Fin 0 else if \<bar>a\<bar> = 1 then Fin 1 else PInf
           | NInf \<Rightarrow> if \<bar>a\<bar> < 1 then PInf else if \<bar>a\<bar> = 1 then Fin 1 else Fin 0)
      | PInf \<Rightarrow>
          (case y of
             NaN \<Rightarrow> NaN
           | Fin b \<Rightarrow> if b > 0 then PInf else Fin 0
           | PInf \<Rightarrow> PInf
           | NInf \<Rightarrow> Fin 0)
      | NInf \<Rightarrow>
          (case y of
             NaN \<Rightarrow> NaN
           | Fin b \<Rightarrow>
               if b > 0 then (if of_int \<lfloor>b\<rfloor> = b \<and> odd \<lfloor>b\<rfloor> then NInf else PInf)
               else Fin 0
           | PInf \<Rightarrow> PInf
           | NInf \<Rightarrow> Fin 0))"

text \<open>
  Rounding of a real number to binary64, to nearest with ties to even: \<open>binade x\<close> is the
  exponent of \<open>x\<close> (not below that of the subnormal numbers), the spacing of the doubles
  around \<open>x\<close> is \<open>2^(binade x - 52)\<close>, and a result of magnitude \<open>2^1024\<close> or more is an
  infinity. \<open>dmul64\<close> is the product of two doubles as the machine computes it.
\<close>

definition round_even :: "real \<Rightarrow> int" where
  "round_even y =
     (if y - of_int \<lfloor>y\<rfloor> < 1 / 2 then \<lfloor>y\<rfloor>
      else if y - of_int \<lfloor>y\<rfloor> > 1 / 2 then \<lfloor>y\<rfloor> + 1
      else if even \<lfloor>y\<rfloor> then \<lfloor>y\<rfloor> else \<lfloor>y\<rfloor> + 1)"

definition binade :: "real \<Rightarrow> int" where
  "binade x = max \<lfloor>log 2 \<bar>x\<bar>\<rfloor> (- 1022)"

definition round64r :: "real \<Rightarrow> real" where
  "round64r x =
     (if x = 0 then 0
      else of_int (round_even (x / 2 powi (binade x - 52))) * 2 powi (binade x - 52))"

definition round64 :: "real \<Rightarrow> double" where
  "round64 x =
     (if 2 ^ 1024 \<le> round64r x then PInf
      else if round64r x \<le> - (2 ^ 1024) then NInf
      else Fin (round64r x))"

definition dmul64 :: "double \<Rightarrow> double \<Rightarrow> double" where
  "dmul64 x y = (case dmul x y of Fin r \<Rightarrow> round64 r | PInf \<Rightarrow> PInf | NInf \<Rightarrow> NInf | NaN \<Rightarrow> NaN)"

text \<open>The largest finite double, and the literal \<open>1e-200\<close>.\<close>

definition DBL_MAX :: real where
  "DBL_MAX = 2 ^ 1024 - 2 ^ 971"

definition density_floor :: real where
  "density_floor = 1 / 10 ^ 200"

section \<open>Errors and unchecked vectors\<close>

text \<open>
  \<open>Rcpp::stop\<close> throws: the run aborts with the message. Indexing a \<open>std::vector\<close>
  with \<open>[]\<close> outside the vector, and converting a NaN or negative double to an index,
  are undefined behaviour in C++; the model makes them the error \<open>Undefined\<close>, so that
  no result is claimed there.
\<close>

datatype error = RcppStop string | Undefined

fun bindE :: "error + 'a \<Rightarrow> ('a \<Rightarrow> error + 'b) \<Rightarrow> error + 'b" where
  "bindE (Inl e) f = Inl e"
| "bindE (Inr x) f = f x"

definition vec_at :: "'a list \<Rightarrow> nat \<Rightarrow> error + 'a" where
  "vec_at xs i = (if i < length xs then Inr (xs ! i) else Inl Undefined)"

definition vec_set :: "'a list \<Rightarrow> nat \<Rightarrow> 'a \<Rightarrow> error + 'a list" where
  "vec_set xs i v = (if i < length xs then Inr (xs[i := v]) else Inl Undefined)"

text \<open>
  A double or an \<open>int\<close> used as a vector index is converted to \<open>size_t\<close>: a double is
  truncated towards zero, and the conversion is undefined for NaN, an infinity and a
  value of -1 or less; a negative \<open>int\<close> wraps to an index beyond every vector.
\<close>

fun index_of_double :: "double \<Rightarrow> error + nat" where
  "index_of_double (Fin a) = (if a \<le> - 1 then Inl Undefined else Inr (nat \<lfloor>a\<rfloor>))"
| "index_of_double PInf = Inl Undefined"
| "index_of_double NInf = Inl Undefined"
| "index_of_double NaN = Inl Undefined"

definition index_of_int :: "int \<Rightarrow> error + nat" where
  "index_of_int x = (if x < 0 then Inl Undefined else Inr (nat x))"

text \<open>
  The loop \<open>for (int i = 0; i < n; ++i) body\<close> over a state; an error in the body leaves
  the loop. \<open>iterate\<close> runs a body over a list of indices.
\<close>

function for_loop :: "int \<Rightarrow> int \<Rightarrow> (nat \<Rightarrow> 's \<Rightarrow> error + 's) \<Rightarrow> 's \<Rightarrow> error + 's" where
  "for_loop i n body st =
     (if i < n then
        (case body (nat i) st of
           Inl e \<Rightarrow> Inl e
         | Inr st' \<Rightarrow> for_loop (i + 1) n body st')
      else Inr st)"
  by pat_completeness auto
termination
  by (relation "measure (\<lambda>(i, n, body, st). nat (n - i))") auto

fun iterate :: "(nat \<Rightarrow> 's \<Rightarrow> error + 's) \<Rightarrow> nat list \<Rightarrow> 's \<Rightarrow> error + 's" where
  "iterate body [] st = Inr st"
| "iterate body (i # is) st = bindE (body i st) (iterate body is)"

section \<open>System and Particle\<close>

text \<open>
  The members of \<open>System\<close> that the sampler reads. A C++ \<open>int\<close> is modelled as an
  integer: the overflow of a signed \<open>int\<close>, which C++ leaves undefined, is not modelled
  (the counters of the sampler grow by one per step).
\<close>

record system =
  n_node :: int
  max_indlevel_age :: int
  node_x :: "double list"
  p_AI_numer :: "int list"
  p_AI_denom :: "int list"
  p_AD_numer :: "int list"
  p_AD_denom :: "int list"
  p_ID_numer :: "int list"
  p_ID_denom :: "int list"
  m_AI_count :: "int list list"
  m_AD_count :: "int list list"
  m_AC_count :: "int list list"
  m_ID_count :: "int list list"
  m_IS_count :: "int list list"
  m_SC_count :: "int list list"
  theta_min :: "double list"
  theta_max :: "double list"
  theta_init :: "double list"
  trans_type :: "int list"
  skip_param :: "bool list"
  gamma_density_lookup :: "double list list list"
  gamma_tail_lookup :: "double list list list"
  rungs :: int
  GTI_pow :: double

text \<open>
  The members of \<open>Particle\<close>: the parameter vectors, the scratch buffers of the
  likelihood, the proposal state and the counters. \<open>beta_raised\<close> is the member that
  \<open>coupling\<close> reads.
\<close>

record particle =
  d :: int
  age_seq :: "double list"
  p_AI_node :: "double list"
  p_AI :: "double list"
  p_AD_node :: "double list"
  p_AD :: "double list"
  p_ID_node :: "double list"
  p_ID :: "double list"
  m_AI_node :: "double list"
  m_AI :: "double list"
  m_AD_node :: "double list"
  m_AD :: "double list"
  m_AC_node :: "double list"
  m_AC :: "double list"
  m_ID_node :: "double list"
  m_ID :: "double list"
  m_IS_node :: "double list"
  m_IS :: "double list"
  m_SC_node :: "double list"
  m_SC :: "double list"
  s_AI :: double
  s_AD :: double
  s_AC :: double
  s_ID :: double
  s_IS :: double
  s_SC :: double
  theta :: "double list"
  theta_prop :: "double list"
  phi :: "double list"
  phi_prop :: "double list"
  bw :: "double list"
  bw_index :: "int list"
  bw_stepsize :: double
  loglike :: double
  loglike_prop :: double
  logprior :: double
  logprior_prop :: double
  accept_count :: int
  beta_raised :: double

section \<open>Reparameterisation\<close>

text \<open>\<open>Particle::phi_prop_to_theta_prop(i)\<close>: writes \<open>theta_prop[i]\<close> from \<open>phi_prop[i]\<close>.\<close>

definition phi_prop_to_theta_prop :: "system \<Rightarrow> nat \<Rightarrow> particle \<Rightarrow> error + particle" where
  "phi_prop_to_theta_prop sys i p =
     bindE (vec_at (trans_type sys) i) (\<lambda>k.
     bindE
       (if k = 0 then vec_at (phi_prop p) i
        else if k = 1 then
          bindE (vec_at (theta_max sys) i) (\<lambda>mx.
          bindE (vec_at (phi_prop p) i) (\<lambda>ph.
          Inr (dsub mx (dexp ph))))
        else if k = 2 then
          bindE (vec_at (phi_prop p) i) (\<lambda>ph.
          bindE (vec_at (theta_min sys) i) (\<lambda>mn.
          Inr (dadd (dexp ph) mn)))
        else if k = 3 then
          bindE (vec_at (theta_max sys) i) (\<lambda>mx.
          bindE (vec_at (phi_prop p) i) (\<lambda>ph.
          bindE (vec_at (theta_min sys) i) (\<lambda>mn.
          Inr (ddiv (dadd (dmul mx (dexp ph)) mn) (dadd (Fin 1) (dexp ph))))))
        else Inl (RcppStop ''trans_type invalid''))
       (\<lambda>v. bindE (vec_set (theta_prop p) i v) (\<lambda>tp. Inr (p\<lparr>theta_prop := tp\<rparr>))))"

text \<open>\<open>Particle::theta_to_phi()\<close>: the loop body for one index, then the loop over \<open>0..d-1\<close>.\<close>

definition theta_to_phi_at :: "system \<Rightarrow> nat \<Rightarrow> particle \<Rightarrow> error + particle" where
  "theta_to_phi_at sys i p =
     bindE (vec_at (trans_type sys) i) (\<lambda>k.
     bindE
       (if k = 0 then vec_at (theta p) i
        else if k = 1 then
          bindE (vec_at (theta_max sys) i) (\<lambda>mx.
          bindE (vec_at (theta p) i) (\<lambda>t.
          Inr (dlog (dsub mx t))))
        else if k = 2 then
          bindE (vec_at (theta p) i) (\<lambda>t.
          bindE (vec_at (theta_min sys) i) (\<lambda>mn.
          Inr (dlog (dsub t mn))))
        else if k = 3 then
          bindE (vec_at (theta p) i) (\<lambda>t.
          bindE (vec_at (theta_min sys) i) (\<lambda>mn.
          bindE (vec_at (theta_max sys) i) (\<lambda>mx.
          Inr (dsub (dlog (dsub t mn)) (dlog (dsub mx t))))))
        else Inl (RcppStop ''trans_type invalid''))
       (\<lambda>v. bindE (vec_set (phi p) i v) (\<lambda>ph. Inr (p\<lparr>phi := ph\<rparr>))))"

definition theta_to_phi :: "system \<Rightarrow> particle \<Rightarrow> error + particle" where
  "theta_to_phi sys p = for_loop 0 (d p) (theta_to_phi_at sys) p"

text \<open>\<open>Particle::get_adjustment(i)\<close>.\<close>

definition get_adjustment :: "system \<Rightarrow> nat \<Rightarrow> particle \<Rightarrow> error + double" where
  "get_adjustment sys i p =
     bindE (vec_at (trans_type sys) i) (\<lambda>k.
       if k = 0 then Inr (Fin 0)
       else if k = 1 then
         bindE (vec_at (theta_prop p) i) (\<lambda>tp.
         bindE (vec_at (theta_max sys) i) (\<lambda>mx.
         bindE (vec_at (theta p) i) (\<lambda>t.
         Inr (dsub (dlog (dsub tp mx)) (dlog (dsub t mx))))))
       else if k = 2 then
         bindE (vec_at (theta_prop p) i) (\<lambda>tp.
         bindE (vec_at (theta_min sys) i) (\<lambda>mn.
         bindE (vec_at (theta p) i) (\<lambda>t.
         Inr (dsub (dlog (dsub tp mn)) (dlog (dsub t mn))))))
       else if k = 3 then
         bindE (vec_at (theta_max sys) i) (\<lambda>mx.
         bindE (vec_at (theta_prop p) i) (\<lambda>tp.
         bindE (vec_at (theta_min sys) i) (\<lambda>mn.
         bindE (vec_at (theta p) i) (\<lambda>t.
         Inr (dsub (dsub (dadd (dlog (dsub mx tp)) (dlog (dsub tp mn)))
                         (dlog (dsub mx t)))
                   (dlog (dsub t mn)))))))
       else Inl (RcppStop ''trans_type invalid''))"

section \<open>Delay distributions\<close>

text \<open>
  \<open>Particle::get_delay_density(x, m, s)\<close> and \<open>Particle::get_delay_tail(x, m, s)\<close>, as
  compiled with \<open>USE_LOOKUP\<close> defined. \<open>lookup3 t m_index s_index x\<close> is the element
  \<open>t[m_index][s_index][x]\<close>. The messages printed before \<open>Rcpp::stop("")\<close> go to the
  console and are not part of the state.
\<close>

definition lookup3 :: "double list list list \<Rightarrow> double \<Rightarrow> double \<Rightarrow> int \<Rightarrow> error + double" where
  "lookup3 t m_index s_index x =
     bindE (index_of_double m_index) (\<lambda>a.
     bindE (vec_at t a) (\<lambda>plane.
     bindE (index_of_double s_index) (\<lambda>b.
     bindE (vec_at plane b) (\<lambda>row.
     bindE (index_of_int x) (\<lambda>c.
     vec_at row c)))))"

definition get_delay_density :: "system \<Rightarrow> int \<Rightarrow> double \<Rightarrow> double \<Rightarrow> error + double" where
  "get_delay_density sys x m s =
     (let m_index = dfloor (dmul64 m (Fin 100));
          s_index = dfloor (dmul64 s (Fin 100))
      in if dless m_index (Fin 0) \<or> dgreater m_index (Fin 2000) \<or>
            dless s_index (Fin 0) \<or> dgreater s_index (Fin 100) \<or> x < 0
         then Inl (RcppStop '''')
         else if x > 100 then Inr (Fin density_floor)
         else lookup3 (gamma_density_lookup sys) m_index s_index x)"

definition get_delay_tail :: "system \<Rightarrow> int \<Rightarrow> double \<Rightarrow> double \<Rightarrow> error + double" where
  "get_delay_tail sys x m s =
     (let m_index = dfloor (dmul64 m (Fin 100));
          s_index = dfloor (dmul64 s (Fin 100))
      in if dless m_index (Fin 0) \<or> dgreater m_index (Fin 2000) \<or>
            dless s_index (Fin 0) \<or> dgreater s_index (Fin 100) \<or> x < 0
         then Inl (RcppStop '''')
         else if x > 100 then Inr (Fin density_floor)
         else lookup3 (gamma_tail_lookup sys) m_index s_index x)"

section \<open>External functions\<close>

text \<open>
  Functions the sampler calls whose code is outside the three source files: the cubic
  spline \<open>cubic_spline(x, y, x_pred, y_pred)\<close>, which fills \<open>y_pred\<close> (its result may
  depend on the previous contents of \<open>y_pred\<close>); \<open>R::dbinom\<close> and \<open>R::dnorm\<close> with
  \<open>give_log = true\<close>; and the two random draws, which thread the generator's state.
\<close>

record 'g ext =
  cubic_spline :: "double list \<Rightarrow> double list \<Rightarrow> double list \<Rightarrow> double list \<Rightarrow> double list"
  R_dbinom :: "double \<Rightarrow> double \<Rightarrow> double \<Rightarrow> double"
  R_dnorm :: "double \<Rightarrow> double \<Rightarrow> double \<Rightarrow> double"
  rnorm1 :: "'g \<Rightarrow> double \<Rightarrow> double \<Rightarrow> double \<times> 'g"
  runif_0_1 :: "'g \<Rightarrow> double \<times> 'g"

section \<open>Likelihood\<close>

text \<open>
  The loop \<open>for (i < n_node) buf[i] = theta[pi++]\<close> with \<open>ofs\<close> the value of \<open>pi\<close> at its start,
  and the nine such loops that open both \<open>get_loglike\<close> and \<open>get_logprior\<close>.
\<close>

definition copy_node :: "double list \<Rightarrow> nat \<Rightarrow> nat \<Rightarrow> double list \<Rightarrow> error + double list" where
  "copy_node th ofs i buf = bindE (vec_at th (ofs + i)) (\<lambda>v. vec_set buf i v)"

definition copy_nodes :: "system \<Rightarrow> double list \<Rightarrow> nat \<Rightarrow> double list \<Rightarrow> error + double list" where
  "copy_nodes sys th ofs buf = for_loop 0 (n_node sys) (copy_node th ofs) buf"

definition unpack_nodes :: "system \<Rightarrow> double list \<Rightarrow> particle \<Rightarrow> error + particle" where
  "unpack_nodes sys th p =
     (let n = nat (n_node sys) in
      bindE (copy_nodes sys th 0 (p_AI_node p)) (\<lambda>b1.
      bindE (copy_nodes sys th n (p_AD_node p)) (\<lambda>b2.
      bindE (copy_nodes sys th (2 * n) (p_ID_node p)) (\<lambda>b3.
      bindE (copy_nodes sys th (3 * n) (m_AI_node p)) (\<lambda>b4.
      bindE (copy_nodes sys th (4 * n) (m_AD_node p)) (\<lambda>b5.
      bindE (copy_nodes sys th (5 * n) (m_AC_node p)) (\<lambda>b6.
      bindE (copy_nodes sys th (6 * n) (m_ID_node p)) (\<lambda>b7.
      bindE (copy_nodes sys th (7 * n) (m_IS_node p)) (\<lambda>b8.
      bindE (copy_nodes sys th (8 * n) (m_SC_node p)) (\<lambda>b9.
      Inr (p\<lparr>p_AI_node := b1, p_AD_node := b2, p_ID_node := b3,
              m_AI_node := b4, m_AD_node := b5, m_AC_node := b6,
              m_ID_node := b7, m_IS_node := b8, m_SC_node := b9\<rparr>)))))))))))"

text \<open>The six coefficients of variation follow the nine node groups.\<close>

definition unpack_cv :: "system \<Rightarrow> double list \<Rightarrow> particle \<Rightarrow> error + particle" where
  "unpack_cv sys th p =
     (let ofs = 9 * nat (n_node sys) in
      bindE (vec_at th ofs) (\<lambda>c1.
      bindE (vec_at th (ofs + 1)) (\<lambda>c2.
      bindE (vec_at th (ofs + 2)) (\<lambda>c3.
      bindE (vec_at th (ofs + 3)) (\<lambda>c4.
      bindE (vec_at th (ofs + 4)) (\<lambda>c5.
      bindE (vec_at th (ofs + 5)) (\<lambda>c6.
      Inr (p\<lparr>s_AI := c1, s_AD := c2, s_AC := c3, s_ID := c4, s_IS := c5, s_SC := c6\<rparr>))))))))"

text \<open>
  A spline over the ages, then every element mapped through \<open>scale / (1 + exp(-v))\<close>:
  \<open>scale\<close> is 1 for the transition probabilities and 20 for the mean durations.
\<close>

definition logistic_curve :: "'g ext \<Rightarrow> system \<Rightarrow> particle \<Rightarrow> real \<Rightarrow> double list \<Rightarrow> double list \<Rightarrow> double list" where
  "logistic_curve ext sys p scale nodes y_pred =
     map (\<lambda>v. ddiv (Fin scale) (dadd (Fin 1) (dexp (dneg v))))
       (cubic_spline ext (node_x sys) nodes (age_seq p) y_pred)"

definition splines :: "'g ext \<Rightarrow> system \<Rightarrow> particle \<Rightarrow> particle" where
  "splines ext sys p =
     p\<lparr>p_AI := logistic_curve ext sys p 1 (p_AI_node p) (p_AI p),
       p_AD := logistic_curve ext sys p 1 (p_AD_node p) (p_AD p),
       p_ID := logistic_curve ext sys p 1 (p_ID_node p) (p_ID p),
       m_AI := logistic_curve ext sys p 20 (m_AI_node p) (m_AI p),
       m_AD := logistic_curve ext sys p 20 (m_AD_node p) (m_AD p),
       m_AC := logistic_curve ext sys p 20 (m_AC_node p) (m_AC p),
       m_ID := logistic_curve ext sys p 20 (m_ID_node p) (m_ID p),
       m_IS := logistic_curve ext sys p 20 (m_IS_node p) (m_IS p),
       m_SC := logistic_curve ext sys p 20 (m_SC_node p) (m_SC p)\<rparr>"

text \<open>One binomial term \<open>ret += R::dbinom(numer[i], denom[i], prob[i], true)\<close>.\<close>

definition binom_term :: "'g ext \<Rightarrow> int list \<Rightarrow> int list \<Rightarrow> double list \<Rightarrow> nat \<Rightarrow> double \<Rightarrow> error + double" where
  "binom_term ext numer denom prob i ret =
     bindE (vec_at numer i) (\<lambda>a.
     bindE (vec_at denom i) (\<lambda>b.
     bindE (vec_at prob i) (\<lambda>q.
     Inr (dadd ret (R_dbinom ext (of_cint a) (of_cint b) q)))))"

text \<open>
  One delay loop over the histogram row \<open>count[i]\<close>, from day \<open>j\<close> on:
  \<open>if (tmp > 0) ret += tmp * log(get_delay_density(j, mean[i], cv))\<close>.
\<close>

fun delay_terms :: "system \<Rightarrow> double list \<Rightarrow> nat \<Rightarrow> double \<Rightarrow> int list \<Rightarrow> nat \<Rightarrow> double \<Rightarrow> error + double" where
  "delay_terms sys mean i cv [] j ret = Inr ret"
| "delay_terms sys mean i cv (tmp # row) j ret =
     (if tmp > 0 then
        bindE (vec_at mean i) (\<lambda>m.
        bindE (get_delay_density sys (int j) m cv) (\<lambda>dens.
        delay_terms sys mean i cv row (Suc j) (dadd ret (dmul (of_cint tmp) (dlog dens)))))
      else delay_terms sys mean i cv row (Suc j) ret)"

definition delay_loop :: "system \<Rightarrow> int list list \<Rightarrow> double list \<Rightarrow> double \<Rightarrow> nat \<Rightarrow> double \<Rightarrow> error + double" where
  "delay_loop sys count mean cv i ret =
     bindE (vec_at count i) (\<lambda>row. delay_terms sys mean i cv row 0 ret)"

text \<open>The terms that one age \<open>i\<close> adds to the running sum, and the check that ends its step.\<close>

definition age_terms :: "'g ext \<Rightarrow> system \<Rightarrow> particle \<Rightarrow> nat \<Rightarrow> double \<Rightarrow> error + double" where
  "age_terms ext sys p i ret =
     bindE (binom_term ext (p_AI_numer sys) (p_AI_denom sys) (p_AI p) i ret) (\<lambda>r1.
     bindE (binom_term ext (p_AD_numer sys) (p_AD_denom sys) (p_AD p) i r1) (\<lambda>r2.
     bindE (binom_term ext (p_ID_numer sys) (p_ID_denom sys) (p_ID p) i r2) (\<lambda>r3.
     bindE (delay_loop sys (m_AI_count sys) (m_AI p) (s_AI p) i r3) (\<lambda>r4.
     bindE (delay_loop sys (m_AD_count sys) (m_AD p) (s_AD p) i r4) (\<lambda>r5.
     bindE (delay_loop sys (m_AC_count sys) (m_AC p) (s_AC p) i r5) (\<lambda>r6.
     bindE (delay_loop sys (m_ID_count sys) (m_ID p) (s_ID p) i r6) (\<lambda>r7.
     bindE (delay_loop sys (m_IS_count sys) (m_IS p) (s_IS p) i r7) (\<lambda>r8.
     delay_loop sys (m_SC_count sys) (m_SC p) (s_SC p) i r8))))))))"

definition age_step :: "'g ext \<Rightarrow> system \<Rightarrow> particle \<Rightarrow> nat \<Rightarrow> double \<Rightarrow> error + double" where
  "age_step ext sys p i ret =
     bindE (age_terms ext sys p i ret) (\<lambda>r.
       if \<not> isfinite r then Inl (RcppStop ''ret non finite'') else Inr r)"

text \<open>The end of \<open>get_loglike\<close>: \<open>if (!std::isfinite(ret)) ret = -DBL_MAX/100.0\<close>.\<close>

definition catch_underflow :: "double \<Rightarrow> double" where
  "catch_underflow ret = (if \<not> isfinite ret then Fin (- DBL_MAX / 100) else ret)"

text \<open>\<open>Particle::get_loglike(theta, theta_i)\<close>: the value and the particle with its buffers.\<close>

definition get_loglike :: "'g ext \<Rightarrow> system \<Rightarrow> double list \<Rightarrow> int \<Rightarrow> particle \<Rightarrow> error + double \<times> particle" where
  "get_loglike ext sys th theta_i p =
     bindE (unpack_nodes sys th p) (\<lambda>p1.
     bindE (unpack_cv sys th p1) (\<lambda>p2.
     bindE (for_loop 0 (max_indlevel_age sys + 1) (age_step ext sys (splines ext sys p2)) (Fin 0)) (\<lambda>ret.
     Inr (catch_underflow ret, splines ext sys p2))))"

section \<open>Prior\<close>

text \<open>
  The loop over one node group: the first node adds \<open>-x - 2*log(1 + exp(-x))\<close>, every
  later node \<open>R::dnorm(x[i], x[i-1], k, true)\<close> with \<open>k = 0.5\<close>.
\<close>

definition prior_term :: "'g ext \<Rightarrow> double list \<Rightarrow> nat \<Rightarrow> double \<Rightarrow> error + double" where
  "prior_term ext nodes i ret =
     (if i = 0 then
        bindE (vec_at nodes i) (\<lambda>x.
        Inr (dadd ret (dsub (dneg x) (dmul (Fin 2) (dlog (dadd (Fin 1) (dexp (dneg x))))))))
      else
        bindE (vec_at nodes i) (\<lambda>x.
        bindE (vec_at nodes (i - 1)) (\<lambda>y.
        Inr (dadd ret (R_dnorm ext x y (Fin (1 / 2)))))))"

definition prior_terms :: "'g ext \<Rightarrow> system \<Rightarrow> double list \<Rightarrow> double \<Rightarrow> error + double" where
  "prior_terms ext sys nodes ret = for_loop 0 (n_node sys) (prior_term ext nodes) ret"

definition get_logprior :: "'g ext \<Rightarrow> system \<Rightarrow> double list \<Rightarrow> int \<Rightarrow> particle \<Rightarrow> error + double \<times> particle" where
  "get_logprior ext sys th theta_i p =
     bindE (unpack_nodes sys th p) (\<lambda>p1.
     bindE (prior_terms ext sys (p_AI_node p1) (Fin 0)) (\<lambda>r1.
     bindE (prior_terms ext sys (p_AD_node p1) r1) (\<lambda>r2.
     bindE (prior_terms ext sys (p_ID_node p1) r2) (\<lambda>r3.
     bindE (prior_terms ext sys (m_AI_node p1) r3) (\<lambda>r4.
     bindE (prior_terms ext sys (m_AD_node p1) r4) (\<lambda>r5.
     bindE (prior_terms ext sys (m_AC_node p1) r5) (\<lambda>r6.
     bindE (prior_terms ext sys (m_ID_node p1) r6) (\<lambda>r7.
     bindE (prior_terms ext sys (m_IS_node p1) r7) (\<lambda>r8.
     bindE (prior_terms ext sys (m_SC_node p1) r8) (\<lambda>r9.
     Inr (r9, p1)))))))))))"

section \<open>The Metropolis-Hastings sweep\<close>

text \<open>The two branches that end a step of \<open>Particle::update\<close> for parameter \<open>i\<close>.\<close>

definition accept_move :: "nat \<Rightarrow> particle \<Rightarrow> error + particle" where
  "accept_move i p =
     bindE (vec_at (theta_prop p) i) (\<lambda>tp.
     bindE (vec_set (theta p) i tp) (\<lambda>th.
     bindE (vec_at (phi_prop p) i) (\<lambda>pp.
     bindE (vec_set (phi p) i pp) (\<lambda>ph.
     bindE (vec_at (bw p) i) (\<lambda>b.
     bindE (vec_at (bw_index p) i) (\<lambda>k.
     bindE (vec_set (bw p) i
              (dexp (dadd (dlog b)
                 (ddiv (dmul (bw_stepsize p) (Fin (1 - 0.234))) (dsqrt (of_cint k)))))) (\<lambda>bw'.
     bindE (vec_set (bw_index p) i (k + 1)) (\<lambda>bi.
     Inr (p\<lparr>theta := th, phi := ph, loglike := loglike_prop p, logprior := logprior_prop p,
             bw := bw', bw_index := bi, accept_count := accept_count p + 1\<rparr>)))))))))"

definition reject_move :: "nat \<Rightarrow> particle \<Rightarrow> error + particle" where
  "reject_move i p =
     bindE (vec_at (theta p) i) (\<lambda>t.
     bindE (vec_set (theta_prop p) i t) (\<lambda>tp.
     bindE (vec_at (phi p) i) (\<lambda>f.
     bindE (vec_set (phi_prop p) i f) (\<lambda>pp.
     bindE (vec_at (bw p) i) (\<lambda>b.
     bindE (vec_at (bw_index p) i) (\<lambda>k.
     bindE (vec_set (bw p) i
              (dexp (dsub (dlog b)
                 (ddiv (dmul (bw_stepsize p) (Fin 0.234)) (dsqrt (of_cint k)))))) (\<lambda>bw'.
     bindE (vec_set (bw_index p) i (k + 1)) (\<lambda>bi.
     Inr (p\<lparr>theta_prop := tp, phi_prop := pp, bw := bw', bw_index := bi\<rparr>)))))))))"

text \<open>The Metropolis-Hastings ratio, from the particle that holds both pairs of values.\<close>

definition MH_ratio :: "double \<Rightarrow> particle \<Rightarrow> double \<Rightarrow> double" where
  "MH_ratio beta p adj =
     dadd (dadd (dmul beta (dsub (loglike_prop p) (loglike p)))
                (dsub (logprior_prop p) (logprior p)))
          adj"

text \<open>
  The body of the loop of \<open>Particle::update(beta)\<close> for parameter \<open>i\<close>, on the particle and
  the generator.
\<close>

definition update_param :: "'g ext \<Rightarrow> system \<Rightarrow> double \<Rightarrow> nat \<Rightarrow> particle \<times> 'g \<Rightarrow> error + particle \<times> 'g" where
  "update_param ext sys beta i st =
     (case st of (p, g) \<Rightarrow>
      bindE (vec_at (skip_param sys) i) (\<lambda>skip.
      if skip then Inr (p, g)
      else
        bindE (vec_at (phi p) i) (\<lambda>f.
        bindE (vec_at (bw p) i) (\<lambda>b.
        case rnorm1 ext g f b of (z, g1) \<Rightarrow>
        bindE (vec_set (phi_prop p) i z) (\<lambda>pp.
        bindE (phi_prop_to_theta_prop sys i (p\<lparr>phi_prop := pp\<rparr>)) (\<lambda>p1.
        bindE (get_adjustment sys i p1) (\<lambda>adj.
        bindE (get_loglike ext sys (theta_prop p1) (int i) p1) (\<lambda>(ll, p2).
        bindE (get_logprior ext sys (theta_prop p2) (int i) (p2\<lparr>loglike_prop := ll\<rparr>)) (\<lambda>(lp, p3).
        case runif_0_1 ext g1 of (u, g2) \<Rightarrow>
        bindE (if dless (dlog u) (MH_ratio beta (p3\<lparr>logprior_prop := lp\<rparr>) adj)
               then accept_move i (p3\<lparr>logprior_prop := lp\<rparr>)
               else reject_move i (p3\<lparr>logprior_prop := lp\<rparr>)) (\<lambda>p4.
        Inr (p4, g2)))))))))))"

definition update :: "'g ext \<Rightarrow> system \<Rightarrow> double \<Rightarrow> particle \<times> 'g \<Rightarrow> error + particle \<times> 'g" where
  "update ext sys beta st =
     (case st of (p, g) \<Rightarrow>
      for_loop 0 (d p) (update_param ext sys beta)
        (p\<lparr>theta_prop := theta p, phi_prop := phi p\<rparr>, g))"

section \<open>The ensemble\<close>

text \<open>
  \<open>run_mcmc\<close>: the thermodynamic powers of the rungs, a vector of \<open>rungs\<close> zeros filled by
  the loop over the rungs. Rung \<open>r\<close> is initialised with \<open>beta_raised_vec[r]\<close>.
\<close>

definition beta_raised_at :: "system \<Rightarrow> nat \<Rightarrow> double list \<Rightarrow> error + double list" where
  "beta_raised_at sys r v =
     vec_set v r
       (if rungs sys = 1 then Fin 1
        else dpow (dsub (Fin 1) (ddiv (of_cint (int r)) (of_cint (rungs sys - 1)))) (GTI_pow sys))"

definition beta_raised_vec :: "system \<Rightarrow> error + double list" where
  "beta_raised_vec sys =
     for_loop 0 (rungs sys) (beta_raised_at sys) (replicate (nat (rungs sys)) (Fin 0))"

text \<open>
  \<open>coupling(particle_vec, mc_accept)\<close>: the body of the loop for the pair of rungs
  \<open>i\<close> and \<open>i+1\<close>, and the loop.
\<close>

definition acceptance :: "particle \<Rightarrow> particle \<Rightarrow> double" where
  "acceptance q1 q2 =
     dsub (dadd (dmul (loglike q2) (beta_raised q1)) (dmul (loglike q1) (beta_raised q2)))
          (dadd (dmul (loglike q1) (beta_raised q1)) (dmul (loglike q2) (beta_raised q2)))"

definition coupling_step :: "'g ext \<Rightarrow> nat \<Rightarrow> particle list \<times> int list \<times> 'g \<Rightarrow> error + particle list \<times> int list \<times> 'g" where
  "coupling_step ext i st =
     (case st of (pv, mc, g) \<Rightarrow>
      bindE (vec_at pv i) (\<lambda>q1.
      bindE (vec_at pv (i + 1)) (\<lambda>q2.
      case runif_0_1 ext g of (u, g') \<Rightarrow>
      if dless (dlog u) (acceptance q1 q2) then
        bindE (vec_set pv i
                 (q1\<lparr>theta := theta q2, phi := phi q2,
                     loglike := loglike q2, logprior := logprior q2\<rparr>)) (\<lambda>pv1.
        bindE (vec_set pv1 (i + 1)
                 (q2\<lparr>theta := theta q1, phi := phi q1,
                     loglike := loglike q1, logprior := logprior q1\<rparr>)) (\<lambda>pv2.
        bindE (vec_at mc i) (\<lambda>c.
        bindE (vec_set mc i (c + 1)) (\<lambda>mc'.
        Inr (pv2, mc', g')))))
      else Inr (pv, mc, g'))))"

definition coupling :: "'g ext \<Rightarrow> particle list \<times> int list \<times> 'g \<Rightarrow> error + particle list \<times> int list \<times> 'g" where
  "coupling ext st =
     (case st of (pv, mc, g) \<Rightarrow>
      for_loop 0 (int (length pv) - 1) (coupling_step ext) (pv, mc, g))"

section \<open>Auxiliary definitions for the statements\<close>

text \<open>The value that \<open>theta_to_phi\<close> stores at index \<open>j\<close>, for a valid transform kind.\<close>

definition phi_value :: "system \<Rightarrow> double list \<Rightarrow> nat \<Rightarrow> double" where
  "phi_value sys th j =
     (if trans_type sys ! j = 0 then th ! j
      else if trans_type sys ! j = 1 then dlog (dsub (theta_max sys ! j) (th ! j))
      else if trans_type sys ! j = 2 then dlog (dsub (th ! j) (theta_min sys ! j))
      else dsub (dlog (dsub (th ! j) (theta_min sys ! j)))
                (dlog (dsub (theta_max sys ! j) (th ! j))))"

text \<open>
  The first \<open>n\<close> parameters are well formed: every vector indexed by a parameter has
  them, and their transform kinds are valid.
\<close>

definition params_ok :: "system \<Rightarrow> particle \<Rightarrow> nat \<Rightarrow> bool" where
  "params_ok sys p n \<longleftrightarrow>
     n \<le> length (trans_type sys) \<and> n \<le> length (theta_min sys) \<and>
     n \<le> length (theta_max sys) \<and> n \<le> length (theta p) \<and> n \<le> length (phi p) \<and>
     list_all (\<lambda>k. k = 0 \<or> k = 1 \<or> k = 2 \<or> k = 3) (take n (trans_type sys))"

text \<open>Concrete inputs: a system and a particle with no parameters, and variants of them.\<close>

definition empty_system :: system where
  "empty_system = \<lparr>n_node = 0, max_indlevel_age = 0, node_x = [],
     p_AI_numer = [], p_AI_denom = [], p_AD_numer = [], p_AD_denom = [],
     p_ID_numer = [], p_ID_denom = [],
     m_AI_count = [], m_AD_count = [], m_AC_count = [], m_ID_count = [],
     m_IS_count = [], m_SC_count = [],
     theta_min = [], theta_max = [], theta_init = [], trans_type = [], skip_param = [],
     gamma_density_lookup = [], gamma_tail_lookup = [], rungs = 1, GTI_pow = Fin 1\<rparr>"

definition empty_particle :: particle where
  "empty_particle = \<lparr>d = 0, age_seq = [],
     p_AI_node = [], p_AI = [], p_AD_node = [], p_AD = [], p_ID_node = [], p_ID = [],
     m_AI_node = [], m_AI = [], m_AD_node = [], m_AD = [], m_AC_node = [], m_AC = [],
     m_ID_node = [], m_ID = [], m_IS_node = [], m_IS = [], m_SC_node = [], m_SC = [],
     s_AI = Fin 0, s_AD = Fin 0, s_AC = Fin 0, s_ID = Fin 0, s_IS = Fin 0, s_SC = Fin 0,
     theta = [], theta_prop = [], phi = [], phi_prop = [],
     bw = [], bw_index = [], bw_stepsize = Fin 1,
     loglike = Fin 0, loglike_prop = Fin 0, logprior = Fin 0, logprior_prop = Fin 0,
     accept_count = 0, beta_raised = Fin 1\<rparr>"

text \<open>Four parameters, one of each transform kind, all bounded by 0 and 1.\<close>

definition bounded_system :: system where
  "bounded_system = empty_system\<lparr>trans_type := [0, 1, 2, 3],
     theta_min := [Fin 0, Fin 0, Fin 0, Fin 0],
     theta_max := [Fin 1, Fin 1, Fin 1, Fin 1],
     skip_param := [False, False, False, False]\<rparr>"

definition bounded_particle :: particle where
  "bounded_particle = empty_particle\<lparr>d := 4,
     theta := [Fin 5, Fin 0, Fin 1, Fin (1/2)],
     theta_prop := [Fin 5, Fin (1/2), Fin 2, Fin (1/2)],
     phi := [Fin 0, Fin 0, Fin 0, Fin 0],
     phi_prop := [Fin 0, Fin 0, Fin 0, Fin 0],
     bw := [Fin 1, Fin 1, Fin 1, Fin 1],
     bw_index := [1, 1, 1, 1]\<rparr>"

text \<open>
  The index \<open>floor(v * 100)\<close> of a finite \<open>v\<close>, from the binary64 product; the valid
  lookup domain of the delay tables, for a finite mean \<open>a\<close>, a finite coefficient of
  variation \<open>b\<close> and a day \<open>x\<close>; and the element \<open>t[a][b][c]\<close> of a table at indices that
  are natural numbers.
\<close>

definition index100 :: "real \<Rightarrow> int" where
  "index100 v = \<lfloor>round64r (v * 100)\<rfloor>"

definition valid_lookup_domain :: "real \<Rightarrow> real \<Rightarrow> int \<Rightarrow> bool" where
  "valid_lookup_domain a b x \<longleftrightarrow>
     0 \<le> index100 a \<and> index100 a \<le> 2000 \<and> 0 \<le> index100 b \<and> index100 b \<le> 100 \<and> 0 \<le> x"

definition entry_at :: "double list list list \<Rightarrow> nat \<Rightarrow> nat \<Rightarrow> nat \<Rightarrow> error + double" where
  "entry_at t a b c =
     bindE (vec_at t a) (\<lambda>plane. bindE (vec_at plane b) (\<lambda>row. vec_at row c))"

text \<open>
  A value at least the floor \<open>1e-200\<close>; a table all of whose entries are; and a table of
  the full size, 2001 means by 101 coefficients of variation by 101 days.
\<close>

fun at_least_floor :: "double \<Rightarrow> bool" where
  "at_least_floor (Fin r) = (density_floor \<le> r)"
| "at_least_floor PInf = True"
| "at_least_floor NInf = False"
| "at_least_floor NaN = False"

definition entries_at_least_floor :: "double list list list \<Rightarrow> bool" where
  "entries_at_least_floor t = list_all (list_all (list_all at_least_floor)) t"

definition table_full :: "double list list list \<Rightarrow> bool" where
  "table_full t \<longleftrightarrow>
     length t = 2001 \<and>
     list_all (\<lambda>plane. length plane = 101 \<and> list_all (\<lambda>row. length row = 101) plane) t"

text \<open>Systems whose two tables hold the same value everywhere: 1, and 0.\<close>

definition const_table :: "double \<Rightarrow> double list list list" where
  "const_table v = replicate 2001 (replicate 101 (replicate 101 v))"

definition unit_table_system :: system where
  "unit_table_system = empty_system\<lparr>gamma_density_lookup := const_table (Fin 1),
     gamma_tail_lookup := const_table (Fin 1)\<rparr>"

definition zero_table_system :: system where
  "zero_table_system = empty_system\<lparr>gamma_density_lookup := const_table (Fin 0),
     gamma_tail_lookup := const_table (Fin 0)\<rparr>"

text \<open>An ensemble of two rungs with \<open>GTI_pow = 3\<close>.\<close>

definition two_rung_system :: system where
  "two_rung_system = empty_system\<lparr>rungs := 2, GTI_pow := Fin 3\<rparr>"

text \<open>
  The part of a rung that \<open>coupling\<close> leaves with the rung: the proposal scales, their
  counters and step size, the acceptance count and the power.
\<close>

definition rung_state_kept :: "particle \<Rightarrow> particle \<Rightarrow> bool" where
  "rung_state_kept q q' \<longleftrightarrow>
     bw q' = bw q \<and> bw_index q' = bw_index q \<and> bw_stepsize q' = bw_stepsize q \<and>
     accept_count q' = accept_count q \<and> beta_raised q' = beta_raised q"

text \<open>
  Stand-ins for the external functions: a generator that counts its draws, a normal draw
  that returns its mean, a uniform draw that returns 1/2, a spline that is 0 at every
  age, and log-densities that are 0.
\<close>

definition fixed_ext :: "nat ext" where
  "fixed_ext = \<lparr>cubic_spline = (\<lambda>x y x_pred y_pred. map (\<lambda>_. Fin 0) x_pred),
     R_dbinom = (\<lambda>x n q. Fin 0),
     R_dnorm = (\<lambda>x mu sd. Fin 0),
     rnorm1 = (\<lambda>g mean sd. (mean, Suc g)),
     runif_0_1 = (\<lambda>g. (Fin (1/2), Suc g))\<rparr>"

text \<open>Two rungs: the first with power 1 and log-likelihood 0, the second with 0 and 1.\<close>

definition rung_a :: particle where
  "rung_a = empty_particle\<lparr>theta := [Fin 1], phi := [Fin 1], loglike := Fin 0,
     logprior := Fin 3, bw := [Fin 2], accept_count := 5, beta_raised := Fin 1\<rparr>"

definition rung_b :: particle where
  "rung_b = empty_particle\<lparr>theta := [Fin 2], phi := [Fin 2], loglike := Fin 1,
     logprior := Fin 4, bw := [Fin 3], accept_count := 7, beta_raised := Fin 0\<rparr>"

text \<open>
  A system with one spline node per group and one age: 15 parameters, one individual out
  of two for each transition, two admissions with a delay of one day, and tables that
  hold 1 everywhere. \<open>one_age_theta\<close> is a parameter vector for it, \<open>one_age_particle\<close> a
  particle at that vector with buffers of the sizes that \<open>Particle::init\<close> gives them,
  and with the log-likelihood and the log-prior of the vector under \<open>fixed_ext\<close>.
\<close>

definition one_age_system :: system where
  "one_age_system = empty_system\<lparr>n_node := 1, max_indlevel_age := 0, node_x := [Fin 0],
     p_AI_numer := [1], p_AI_denom := [2], p_AD_numer := [1], p_AD_denom := [2],
     p_ID_numer := [1], p_ID_denom := [2],
     m_AI_count := [[0, 2]], m_AD_count := [[]], m_AC_count := [[]], m_ID_count := [[]],
     m_IS_count := [[]], m_SC_count := [[]],
     theta_min := replicate 15 (Fin 0), theta_max := replicate 15 (Fin 1),
     theta_init := replicate 15 (Fin (1/2)),
     trans_type := replicate 15 0, skip_param := replicate 15 False,
     gamma_density_lookup := const_table (Fin 1), gamma_tail_lookup := const_table (Fin 1)\<rparr>"

definition one_age_theta :: "double list" where
  "one_age_theta = [Fin 0, Fin 0, Fin 0, Fin 0, Fin 0, Fin 0, Fin 0, Fin 0, Fin 0,
     Fin (1/2), Fin (1/2), Fin (1/2), Fin (1/2), Fin (1/2), Fin (1/2)]"

definition one_age_particle :: particle where
  "one_age_particle = empty_particle\<lparr>d := 15, age_seq := [Fin 0],
     p_AI_node := [Fin 0], p_AI := [Fin 0], p_AD_node := [Fin 0], p_AD := [Fin 0],
     p_ID_node := [Fin 0], p_ID := [Fin 0], m_AI_node := [Fin 0], m_AI := [Fin 0],
     m_AD_node := [Fin 0], m_AD := [Fin 0], m_AC_node := [Fin 0], m_AC := [Fin 0],
     m_ID_node := [Fin 0], m_ID := [Fin 0], m_IS_node := [Fin 0], m_IS := [Fin 0],
     m_SC_node := [Fin 0], m_SC := [Fin 0],
     theta := one_age_theta, theta_prop := one_age_theta,
     phi := one_age_theta, phi_prop := one_age_theta,
     bw := replicate 15 (Fin 1), bw_index := replicate 15 1,
     loglike := Fin 0, logprior := Fin (- (18 * ln 2))\<rparr>"

text \<open>External functions whose binomial log-density is minus infinity.\<close>

definition impossible_ext :: "nat ext" where
  "impossible_ext = fixed_ext\<lparr>R_dbinom := (\<lambda>x n q. NInf)\<rparr>"

text \<open>
  The members of a particle other than the scratch buffers of the likelihood: the
  likelihood and the prior leave all of them as they are.
\<close>

definition only_buffers_changed :: "particle \<Rightarrow> particle \<Rightarrow> bool" where
  "only_buffers_changed p p' \<longleftrightarrow>
     d p' = d p \<and> age_seq p' = age_seq p \<and>
     theta p' = theta p \<and> theta_prop p' = theta_prop p \<and>
     phi p' = phi p \<and> phi_prop p' = phi_prop p \<and>
     bw p' = bw p \<and> bw_index p' = bw_index p \<and> bw_stepsize p' = bw_stepsize p \<and>
     loglike p' = loglike p \<and> loglike_prop p' = loglike_prop p \<and>
     logprior p' = logprior p \<and> logprior_prop p' = logprior_prop p \<and>
     accept_count p' = accept_count p \<and> beta_raised p' = beta_raised p"

section \<open>Basic facts\<close>

declare for_loop.simps [simp del]

lemma bindE_Inr_iff:
  "bindE m f = Inr y \<longleftrightarrow> (\<exists>x. m = Inr x \<and> f x = Inr y)"
  by (cases m) auto

lemma vec_at_in [simp]: "i < length xs \<Longrightarrow> vec_at xs i = Inr (xs ! i)"
  by (simp add: vec_at_def)

lemma vec_set_in [simp]: "i < length xs \<Longrightarrow> vec_set xs i v = Inr (xs[i := v])"
  by (simp add: vec_set_def)

lemma vec_at_Inr_iff: "vec_at xs i = Inr v \<longleftrightarrow> i < length xs \<and> v = xs ! i"
  by (auto simp: vec_at_def)

lemma vec_set_Inr_iff: "vec_set xs i v = Inr ys \<longleftrightarrow> i < length xs \<and> ys = xs[i := v]"
  by (auto simp: vec_set_def)

text \<open>The counting loop visits the indices from \<open>i\<close> to \<open>n - 1\<close> in increasing order.\<close>

lemma for_loop_iterate:
  "0 \<le> i \<Longrightarrow> for_loop i n body st = iterate body [nat i..<nat n] st"
proof (induction i n body st rule: for_loop.induct)
  case (1 i n body st)
  show ?case
  proof (cases "i < n")
    case True
    with "1.prems" have l: "[nat i..<nat n] = nat i # [nat (i + 1)..<nat n]"
      by (simp add: upt_conv_Cons nat_add_distrib)
    show ?thesis
    proof (cases "body (nat i) st")
      case (Inl e)
      with True l show ?thesis by (subst for_loop.simps) simp
    next
      case (Inr st')
      with True "1.prems" have "for_loop (i + 1) n body st' = iterate body [nat (i + 1)..<nat n] st'"
        by (intro "1.IH") auto
      with True l Inr show ?thesis by (subst for_loop.simps) simp
    qed
  next
    case False
    with "1.prems" show ?thesis by (subst for_loop.simps) simp
  qed
qed

lemma for_loop_upt: "for_loop 0 n body st = iterate body [0..<nat n] st"
  using for_loop_iterate [of 0 n body st] by simp

lemma bindE_assoc: "bindE (bindE m f) g = bindE m (\<lambda>x. bindE (f x) g)"
  by (cases m) auto

lemma iterate_append:
  "iterate body (js @ ks) st = bindE (iterate body js st) (iterate body ks)"
proof (induction js arbitrary: st)
  case Nil
  show ?case by simp
next
  case (Cons j js)
  have "iterate body (js @ ks) = (\<lambda>x. bindE (iterate body js x) (iterate body ks))"
    by (rule ext) (rule Cons.IH)
  then show ?case by (simp add: bindE_assoc)
qed

section \<open>Reparameterisation: round trip and adjustment\<close>

lemma theta_to_phi_at_ok:
  assumes "params_ok sys p n" "i < n"
  shows "theta_to_phi_at sys i p = Inr (p\<lparr>phi := (phi p)[i := phi_value sys (theta p) i]\<rparr>)"
proof -
  from assms have k: "trans_type sys ! i = 0 \<or> trans_type sys ! i = 1 \<or>
      trans_type sys ! i = 2 \<or> trans_type sys ! i = 3"
    by (auto simp: params_ok_def list_all_length)
  from assms have l: "i < length (trans_type sys)" "i < length (theta_min sys)"
      "i < length (theta_max sys)" "i < length (theta p)" "i < length (phi p)"
    by (auto simp: params_ok_def)
  show ?thesis using k l
    by (auto simp: theta_to_phi_at_def phi_value_def)
qed

lemma theta_to_phi_iterate_ok:
  assumes "params_ok sys p n" "set js \<subseteq> {..<n}"
  shows "\<exists>p'. iterate (theta_to_phi_at sys) js p = Inr p' \<and> theta p' = theta p \<and>
           theta_prop p' = theta_prop p \<and> length (phi p') = length (phi p) \<and>
           (\<forall>j. j \<notin> set js \<longrightarrow> phi p' ! j = phi p ! j) \<and>
           (\<forall>j \<in> set js. phi p' ! j = phi_value sys (theta p) j)"
  using assms
proof (induction js arbitrary: p)
  case Nil
  then show ?case by simp
next
  case (Cons i js)
  let ?q = "p\<lparr>phi := (phi p)[i := phi_value sys (theta p) i]\<rparr>"
  from Cons.prems have i: "i < n" by simp
  have step: "theta_to_phi_at sys i p = Inr ?q"
    using theta_to_phi_at_ok [OF Cons.prems(1) i] .
  have okq: "params_ok sys ?q n"
    using Cons.prems(1) by (simp add: params_ok_def)
  from Cons.prems have sub: "set js \<subseteq> {..<n}" by simp
  from Cons.IH [OF okq sub] obtain p' where
    p': "iterate (theta_to_phi_at sys) js ?q = Inr p'" "theta p' = theta ?q"
        "theta_prop p' = theta_prop ?q" "length (phi p') = length (phi ?q)"
        "\<forall>j. j \<notin> set js \<longrightarrow> phi p' ! j = phi ?q ! j"
        "\<forall>j \<in> set js. phi p' ! j = phi_value sys (theta ?q) j"
    by blast
  have il: "i < length (phi p)"
    using Cons.prems(1) i by (simp add: params_ok_def)
  have new: "phi p' ! j = phi_value sys (theta p) j" if j: "j \<in> set (i # js)" for j
  proof (cases "j \<in> set js")
    case True
    then show ?thesis using p'(6) by simp
  next
    case False
    with j have "j = i" by simp
    then show ?thesis using p'(5) False il by simp
  qed
  have "iterate (theta_to_phi_at sys) (i # js) p = Inr p'"
    using step p'(1) by simp
  moreover have "\<forall>j. j \<notin> set (i # js) \<longrightarrow> phi p' ! j = phi p ! j"
    using p'(5) by simp
  ultimately show ?case
    using p'(2,3,4) new by auto
qed

text \<open>
  C9. For a parameter \<open>i\<close> with a valid transform kind whose value \<open>x\<close> lies strictly
  inside the bounds of that kind (any \<open>x\<close> for kind 0, below the maximum for kind 1,
  above the minimum for kind 2, between both for kind 3), \<open>theta_to_phi\<close> followed by
  \<open>phi_prop_to_theta_prop\<close> on the resulting \<open>phi\<close> gives back \<open>x\<close>, exactly over the
  reals.
\<close>

theorem transform_roundtrip:
  assumes ok: "params_ok sys p (nat (d p))"
    and i: "i < nat (d p)" "i < length (theta_prop p)"
    and x: "theta p ! i = Fin x"
    and kind: "trans_type sys ! i = 0
       \<or> trans_type sys ! i = 1 \<and> (\<exists>mx. theta_max sys ! i = Fin mx \<and> x < mx)
       \<or> trans_type sys ! i = 2 \<and> (\<exists>mn. theta_min sys ! i = Fin mn \<and> mn < x)
       \<or> trans_type sys ! i = 3 \<and>
           (\<exists>mn mx. theta_min sys ! i = Fin mn \<and> theta_max sys ! i = Fin mx \<and> mn < x \<and> x < mx)"
  shows "\<exists>p1 p2. theta_to_phi sys p = Inr p1 \<and>
           phi_prop_to_theta_prop sys i (p1\<lparr>phi_prop := phi p1\<rparr>) = Inr p2 \<and>
           theta_prop p2 ! i = Fin x"
proof -
  have sub: "set [0..<nat (d p)] \<subseteq> {..<nat (d p)}" by auto
  from theta_to_phi_iterate_ok [OF ok sub] obtain p1 where
    p1: "theta_to_phi sys p = Inr p1" "theta_prop p1 = theta_prop p"
        "length (phi p1) = length (phi p)"
        "\<forall>j \<in> set [0..<nat (d p)]. phi p1 ! j = phi_value sys (theta p) j"
    unfolding theta_to_phi_def for_loop_upt by auto
  from p1(4) i(1) have ph: "phi p1 ! i = phi_value sys (theta p) i" by simp
  from ok i(1) have l: "i < length (trans_type sys)" "i < length (theta_min sys)"
      "i < length (theta_max sys)" "i < length (phi p1)"
    using p1(3) by (auto simp: params_ok_def)
  let ?q = "p1\<lparr>phi_prop := phi p1\<rparr>"
  have tpl: "i < length (theta_prop ?q)" using i(2) p1(2) by simp
  have "\<exists>p2. phi_prop_to_theta_prop sys i ?q = Inr p2 \<and> theta_prop p2 ! i = Fin x"
    using kind
  proof (elim disjE conjE exE)
    assume "trans_type sys ! i = 0"
    then show ?thesis using l tpl ph x
      by (simp add: phi_prop_to_theta_prop_def phi_value_def)
  next
    fix mx assume "trans_type sys ! i = 1" "theta_max sys ! i = Fin mx" "x < mx"
    then show ?thesis using l tpl ph x
      by (simp add: phi_prop_to_theta_prop_def phi_value_def dsub_def)
  next
    fix mn assume "trans_type sys ! i = 2" "theta_min sys ! i = Fin mn" "mn < x"
    then show ?thesis using l tpl ph x
      by (simp add: phi_prop_to_theta_prop_def phi_value_def dsub_def)
  next
    fix mn mx assume k: "trans_type sys ! i = 3" "theta_min sys ! i = Fin mn"
      "theta_max sys ! i = Fin mx" and b: "mn < x" "x < mx"
    have e: "exp (ln (x - mn) - ln (mx - x)) = (x - mn) / (mx - x)"
      using b by (simp add: exp_diff)
    have nz: "mx - x \<noteq> 0" "mx - mn \<noteq> 0" using b by auto
    have num: "mx * ((x - mn) / (mx - x)) + mn = x * (mx - mn) / (mx - x)"
      using nz(1) by (simp add: field_simps)
    have den: "1 + (x - mn) / (mx - x) = (mx - mn) / (mx - x)"
      using nz(1) by (simp add: field_simps)
    have "(mx * ((x - mn) / (mx - x)) + mn) / (1 + (x - mn) / (mx - x)) = x"
      unfolding num den using nz by simp
    moreover have "1 + (x - mn) / (mx - x) \<noteq> 0"
      unfolding den using nz by simp
    ultimately show ?thesis using l tpl ph x k b e
      by (simp add: phi_prop_to_theta_prop_def phi_value_def dsub_def)
  qed
  with p1(1) show ?thesis by blast
qed

theorem transform_roundtrip_witness:
  "\<exists>p1 p2. theta_to_phi bounded_system bounded_particle = Inr p1 \<and>
     phi_prop_to_theta_prop bounded_system 3 (p1\<lparr>phi_prop := phi p1\<rparr>) = Inr p2 \<and>
     theta_prop p2 ! 3 = Fin (1/2)"
  using transform_roundtrip [of bounded_system bounded_particle 3 "1/2"]
  by (simp add: params_ok_def bounded_system_def bounded_particle_def empty_system_def
      empty_particle_def)

text \<open>
  The adjustment is the analytic log-ratio of the Jacobians for the kinds 0, 2 and 3.
\<close>

lemma get_adjustment_kinds_0_2_3:
  assumes "i < length (trans_type sys)" "i < length (theta_min sys)"
    "i < length (theta_max sys)" "i < length (theta p)" "i < length (theta_prop p)"
    and "theta p ! i = Fin t" "theta_prop p ! i = Fin tp"
    and "theta_min sys ! i = Fin mn" "theta_max sys ! i = Fin mx"
  shows "trans_type sys ! i = 0 \<Longrightarrow> get_adjustment sys i p = Inr (Fin 0)"
    and "trans_type sys ! i = 2 \<Longrightarrow> mn < t \<Longrightarrow> mn < tp \<Longrightarrow>
           get_adjustment sys i p = Inr (Fin (ln (tp - mn) - ln (t - mn)))"
    and "trans_type sys ! i = 3 \<Longrightarrow> mn < t \<Longrightarrow> t < mx \<Longrightarrow> mn < tp \<Longrightarrow> tp < mx \<Longrightarrow>
           get_adjustment sys i p =
             Inr (Fin (ln (mx - tp) + ln (tp - mn) - ln (mx - t) - ln (t - mn)))"
  using assms by (simp_all add: get_adjustment_def dsub_def)

text \<open>
  C1 (the code departs from the claim). For kind 1 the code takes the logarithms of
  \<open>theta_prop[i] - max\<close> and \<open>theta[i] - max\<close>, which are negative strictly inside the
  bound: \<open>get_adjustment\<close> returns NaN there, not \<open>log(max - theta_prop) - log(max - theta)\<close>.
\<close>

theorem get_adjustment_kind1_nan:
  assumes "i < length (trans_type sys)" "i < length (theta_max sys)"
    "i < length (theta p)" "i < length (theta_prop p)"
    and "trans_type sys ! i = 1" "theta_max sys ! i = Fin mx"
    and "theta p ! i = Fin t" "theta_prop p ! i = Fin tp"
    and "t < mx" "tp < mx"
  shows "get_adjustment sys i p = Inr NaN \<and>
         get_adjustment sys i p \<noteq> Inr (Fin (ln (mx - tp) - ln (mx - t)))"
  using assms by (simp add: get_adjustment_def dsub_def)

theorem get_adjustment_kind1_nan_witness:
  "get_adjustment bounded_system 1 bounded_particle = Inr NaN \<and>
   get_adjustment bounded_system 1 bounded_particle \<noteq> Inr (Fin (ln (1 - 1/2) - ln (1 - 0)))"
  using get_adjustment_kind1_nan [of 1 bounded_system bounded_particle 1 0 "1/2"]
  by (simp add: bounded_system_def bounded_particle_def empty_system_def empty_particle_def)

text \<open>
  C10. The index argument \<open>theta_i\<close> does not influence \<open>get_loglike\<close> or \<open>get_logprior\<close>:
  for the same parameter vector, model data and particle, any two indices give the same
  result.
\<close>

theorem loglike_logprior_ignore_index:
  "get_loglike ext sys th i p = get_loglike ext sys th j p \<and>
   get_logprior ext sys th i p = get_logprior ext sys th j p"
  by (simp add: get_loglike_def get_logprior_def)

section \<open>Rounding to binary64\<close>

lemma round_even_of_int: "round_even (of_int n) = n"
  by (simp add: round_even_def)

lemma binade_of_int:
  assumes "k \<noteq> 0" "\<bar>k\<bar> < 2 ^ 53"
  shows "0 \<le> binade (of_int k)" "binade (of_int k) \<le> 52"
proof -
  have a: "1 \<le> \<bar>real_of_int k\<bar>" using assms(1) by linarith
  have "real_of_int \<bar>k\<bar> < of_int (2 ^ 53)"
    using assms(2) by (simp only: of_int_less_iff)
  then have b: "\<bar>real_of_int k\<bar> < 2 ^ 53" by simp
  have "0 \<le> log 2 \<bar>real_of_int k\<bar>" using a by simp
  then have l: "0 \<le> \<lfloor>log 2 \<bar>real_of_int k\<bar>\<rfloor>" by simp
  have l53: "log 2 ((2::real) ^ 53) = 53"
    by (subst log_nat_power) simp_all
  have "log 2 \<bar>real_of_int k\<bar> < log 2 (2 ^ 53)"
    using a b by (subst log_less_cancel_iff) auto
  then have "log 2 \<bar>real_of_int k\<bar> < 53" unfolding l53 .
  then have u: "\<lfloor>log 2 \<bar>real_of_int k\<bar>\<rfloor> \<le> 52" by linarith
  from l show "0 \<le> binade (of_int k)" by (simp add: binade_def)
  from l u show "binade (of_int k) \<le> 52" by (simp add: binade_def)
qed

text \<open>An integer below \<open>2^53\<close> in magnitude is a double: rounding leaves it as it is.\<close>

lemma round64r_of_int:
  assumes "\<bar>k\<bar> < 2 ^ 53"
  shows "round64r (of_int k) = of_int k"
proof (cases "k = 0")
  case True
  then show ?thesis by (simp add: round64r_def)
next
  case False
  define e where "e = binade (of_int k)"
  from binade_of_int [OF False assms] have e: "0 \<le> e" "e \<le> 52" by (simp_all add: e_def)
  define n where "n = nat (52 - e)"
  have q: "(2::real) powi (e - 52) = 1 / 2 ^ n"
    using e by (simp add: n_def power_int_def nat_diff_distrib power_one_over)
  have "real_of_int k / (1 / 2 ^ n) = of_int (k * 2 ^ n)" by simp
  then have "round_even (real_of_int k / 2 powi (e - 52)) = k * 2 ^ n"
    unfolding q by (simp only: round_even_of_int)
  then show ?thesis
    using False by (simp add: round64r_def e_def [symmetric] q)
qed

lemma round64_of_int:
  assumes "\<bar>k\<bar> < 2 ^ 53"
  shows "round64 (of_int k) = Fin (of_int k)"
proof -
  have "real_of_int \<bar>k\<bar> < of_int (2 ^ 53)"
    using assms by (simp only: of_int_less_iff)
  then have "\<bar>real_of_int k\<bar> < 2 ^ 53" by simp
  moreover have "(2::real) ^ 53 \<le> 2 ^ 1024" by (rule power_increasing) simp_all
  ultimately have "\<bar>real_of_int k\<bar> < 2 ^ 1024" by linarith
  then show ?thesis
    unfolding round64_def round64r_of_int [OF assms] by (simp add: abs_less_iff)
qed

lemma binade_eq:
  assumes "2 powi e \<le> \<bar>x\<bar>" "\<bar>x\<bar> < 2 powi (e + 1)" "- 1022 \<le> e"
  shows "binade x = e"
proof -
  have pos: "0 < \<bar>x\<bar>"
    using assms(1) by (smt (verit) zero_less_power_int)
  have p1: "(2::real) powr real_of_int e = 2 powi e"
    by (simp add: powr_real_of_int')
  have p2: "(2::real) powr real_of_int (e + 1) = 2 powi (e + 1)"
    by (rule powr_real_of_int') simp_all
  have "\<lfloor>log 2 \<bar>x\<bar>\<rfloor> = e"
    using assms(1,2) pos floor_log_eq_powr_iff [of "\<bar>x\<bar>" 2 e]
    unfolding p1 p2 by simp
  with assms(3) show ?thesis by (simp add: binade_def)
qed

text \<open>The indices of the means 10 and 25 and of the coefficient of variation 1/2.\<close>

lemma index100_10: "index100 10 = 1000"
  using round64r_of_int [of 1000] by (simp add: index100_def)

lemma index100_25: "index100 25 = 2500"
  using round64r_of_int [of 2500] by (simp add: index100_def)

lemma index100_half: "index100 (1/2) = 50"
  using round64r_of_int [of 50] by (simp add: index100_def)

lemma dmul64_10: "dmul64 (Fin 10) (Fin 100) = Fin 1000"
  using round64_of_int [of 1000] by (simp add: dmul64_def)

lemma dmul64_25: "dmul64 (Fin 25) (Fin 100) = Fin 2500"
  using round64_of_int [of 2500] by (simp add: dmul64_def)

lemma dmul64_half: "dmul64 (Fin (1/2)) (Fin 100) = Fin 50"
  using round64_of_int [of 50] by (simp add: dmul64_def)

text \<open>
  The index follows the machine's product, not the exact one: for the double nearest to
  0.03, \<open>0x1.eb851eb851eb8p-6\<close>, the product with 100 rounds to 3 and the index is 3,
  while the exact product is below 3.
\<close>

lemma index100_near_003:
  "index100 (8646911284551352 / 2 ^ 58) = 3 \<and>
   \<lfloor>8646911284551352 / 2 ^ 58 * (100::real)\<rfloor> = 2"
proof -
  define x :: real where "x = 8646911284551352 / 2 ^ 58 * 100"
  have b: "binade x = 1"
    by (rule binade_eq) (simp_all add: power_int_def x_def)
  have q: "(2::real) powi (1 - 52) = 1 / 2 ^ 51"
    by (simp add: power_int_def power_one_over)
  have y: "x / (1 / 2 ^ 51) = 6755399441055743 + 3 / 4"
    by (simp add: x_def)
  have f: "\<lfloor>6755399441055743 + 3 / (4::real)\<rfloor> = 6755399441055743"
    by (simp add: floor_eq_iff)
  have "round_even (x / (1 / 2 ^ 51)) = 6755399441055744"
    unfolding y round_even_def f by simp
  moreover have "x \<noteq> 0" by (simp add: x_def)
  ultimately have "round64r x = 3"
    unfolding round64r_def b q by simp
  moreover have "\<lfloor>x\<rfloor> = 2" by (simp add: floor_eq_iff x_def)
  ultimately show ?thesis unfolding index100_def x_def [symmetric] by simp
qed

section \<open>Delay lookups\<close>

lemma density_floor_pos: "0 < density_floor"
  by (simp add: density_floor_def)

text \<open>The double \<open>floor(v * 100)\<close> against the bounds of a range, and inside the range.\<close>

lemma scaled_index_range:
  assumes "hi \<le> 2000"
  shows "dless (dfloor (dmul64 (Fin v) (Fin 100))) (Fin 0) \<or>
         dgreater (dfloor (dmul64 (Fin v) (Fin 100))) (Fin (of_int hi))
         \<longleftrightarrow> \<not> (0 \<le> index100 v \<and> index100 v \<le> hi)"
proof -
  let ?r = "round64r (v * 100)"
  have big: "(2001::real) \<le> 2 ^ 1024" by simp
  consider "2 ^ 1024 \<le> ?r" | "?r \<le> - (2 ^ 1024)" | "?r < 2 ^ 1024" "- (2 ^ 1024) < ?r"
    by linarith
  then show ?thesis
  proof cases
    case 1
    with big have "2001 \<le> ?r" by linarith
    with assms have "\<not> (0 \<le> index100 v \<and> index100 v \<le> hi)"
      unfolding index100_def by linarith
    moreover from 1 have "dfloor (dmul64 (Fin v) (Fin 100)) = PInf"
      by (simp add: dmul64_def round64_def)
    ultimately show ?thesis by (simp add: dgreater_def)
  next
    case 2
    with big have "?r < 0" by linarith
    then have "\<not> (0 \<le> index100 v \<and> index100 v \<le> hi)"
      unfolding index100_def by linarith
    moreover from 2 big have "\<not> 2 ^ 1024 \<le> ?r" by linarith
    with 2 have "dfloor (dmul64 (Fin v) (Fin 100)) = NInf"
      by (simp add: dmul64_def round64_def)
    ultimately show ?thesis by simp
  next
    case 3
    then have "round64 (v * 100) = Fin ?r" by (simp add: round64_def)
    then have "dfloor (dmul64 (Fin v) (Fin 100)) = Fin (of_int \<lfloor>?r\<rfloor>)"
      by (simp add: dmul64_def)
    then show ?thesis
      by (simp only: dless.simps dgreater_def index100_def of_int_less_iff
          of_int_0_less_iff of_int_less_0_iff) linarith
  qed
qed

lemma scaled_index_value:
  assumes "0 \<le> index100 v" "index100 v \<le> 2000"
  shows "dfloor (dmul64 (Fin v) (Fin 100)) = Fin (of_int (index100 v))"
proof -
  let ?r = "round64r (v * 100)"
  from assms have "0 \<le> ?r" "?r < 2001"
    unfolding index100_def by linarith+
  moreover have "(2001::real) \<le> 2 ^ 1024" by simp
  ultimately have "round64 (v * 100) = Fin ?r"
    by (simp add: round64_def)
  then show ?thesis by (simp add: dmul64_def index100_def)
qed

lemma delay_guard:
  "(dless (dfloor (dmul64 (Fin a) (Fin 100))) (Fin 0) \<or>
    dgreater (dfloor (dmul64 (Fin a) (Fin 100))) (Fin 2000) \<or>
    dless (dfloor (dmul64 (Fin b) (Fin 100))) (Fin 0) \<or>
    dgreater (dfloor (dmul64 (Fin b) (Fin 100))) (Fin 100) \<or> x < 0)
   \<longleftrightarrow> \<not> valid_lookup_domain a b x"
  using scaled_index_range [of 2000 a] scaled_index_range [of 100 b]
  by (auto simp: valid_lookup_domain_def)

lemma index_of_index100:
  assumes "0 \<le> k"
  shows "index_of_double (Fin (of_int k)) = Inr (nat k)"
proof -
  have "\<not> real_of_int k \<le> - 1" using assms by linarith
  then show ?thesis by simp
qed

lemma lookup3_entry_at:
  assumes "0 \<le> i" "0 \<le> j" "0 \<le> x"
  shows "lookup3 t (Fin (of_int i)) (Fin (of_int j)) x = entry_at t (nat i) (nat j) (nat x)"
  using assms(3)
  by (simp add: lookup3_def entry_at_def index_of_int_def
      index_of_index100 [OF assms(1)] index_of_index100 [OF assms(2)]
      del: index_of_double.simps)

lemma delay_outside:
  assumes "\<not> valid_lookup_domain a b x"
  shows "get_delay_density sys x (Fin a) (Fin b) = Inl (RcppStop '''')"
    and "get_delay_tail sys x (Fin a) (Fin b) = Inl (RcppStop '''')"
  using assms
  unfolding get_delay_density_def get_delay_tail_def Let_def delay_guard by simp_all

lemma delay_beyond_table:
  assumes "valid_lookup_domain a b x" "x > 100"
  shows "get_delay_density sys x (Fin a) (Fin b) = Inr (Fin density_floor)"
    and "get_delay_tail sys x (Fin a) (Fin b) = Inr (Fin density_floor)"
  using assms
  unfolding get_delay_density_def get_delay_tail_def Let_def delay_guard by simp_all

lemma delay_entry:
  assumes v: "valid_lookup_domain a b x" "x \<le> 100"
  shows "get_delay_density sys x (Fin a) (Fin b) =
      entry_at (gamma_density_lookup sys) (nat (index100 a)) (nat (index100 b)) (nat x)"
    and "get_delay_tail sys x (Fin a) (Fin b) =
      entry_at (gamma_tail_lookup sys) (nat (index100 a)) (nat (index100 b)) (nat x)"
proof -
  from v have f: "0 \<le> index100 a" "0 \<le> index100 b" "0 \<le> x"
    and g: "index100 a \<le> 2000" "index100 b \<le> 2000"
    by (simp_all add: valid_lookup_domain_def)
  note m = scaled_index_value [OF f(1) g(1)] scaled_index_value [OF f(2) g(2)]
  from v show "get_delay_density sys x (Fin a) (Fin b) =
      entry_at (gamma_density_lookup sys) (nat (index100 a)) (nat (index100 b)) (nat x)"
    unfolding get_delay_density_def Let_def delay_guard
    by (simp only: m lookup3_entry_at [OF f]) simp
  from v show "get_delay_tail sys x (Fin a) (Fin b) =
      entry_at (gamma_tail_lookup sys) (nat (index100 a)) (nat (index100 b)) (nat x)"
    unfolding get_delay_tail_def Let_def delay_guard
    by (simp only: m lookup3_entry_at [OF f]) simp
qed

lemma delay_mean_25:
  "get_delay_density sys x (Fin 25) s = Inl (RcppStop '''')"
  "get_delay_tail sys x (Fin 25) s = Inl (RcppStop '''')"
  by (simp_all add: get_delay_density_def get_delay_tail_def dgreater_def dmul64_25)

text \<open>An infinite mean or coefficient of variation is outside the range as well.\<close>

lemma delay_infinite_stops:
  assumes "m \<in> {PInf, NInf} \<or> s \<in> {PInf, NInf}"
  shows "get_delay_density sys x m s = Inl (RcppStop '''')"
    and "get_delay_tail sys x m s = Inl (RcppStop '''')"
  using assms
  by (cases m; cases s; auto simp: get_delay_density_def get_delay_tail_def dgreater_def
      dmul64_def inf_signed_def)+

text \<open>
  For numbers \<open>m\<close> and \<open>s\<close> the calls behave as the three cases say: outside the valid
  lookup domain (\<open>floor(m*100)\<close> outside \<open>[0, 2000]\<close>, \<open>floor(s*100)\<close> outside \<open>[0, 100]\<close>, or
  \<open>x < 0\<close>) the call stops the run; otherwise, for \<open>x > 100\<close> it returns the floor \<open>1e-200\<close>
  whatever the table holds; otherwise it returns the table's element at
  \<open>(floor(m*100), floor(s*100), x)\<close>. An infinite \<open>m\<close> or \<open>s\<close> is outside the domain too,
  and a call with \<open>m = 25\<close> stops the run.
\<close>

lemma delay_lookup_cases:
  "(\<not> valid_lookup_domain a b x \<longrightarrow>
      get_delay_density sys x (Fin a) (Fin b) = Inl (RcppStop '''') \<and>
      get_delay_tail sys x (Fin a) (Fin b) = Inl (RcppStop '''')) \<and>
   (valid_lookup_domain a b x \<and> x > 100 \<longrightarrow>
      get_delay_density sys x (Fin a) (Fin b) = Inr (Fin density_floor) \<and>
      get_delay_tail sys x (Fin a) (Fin b) = Inr (Fin density_floor)) \<and>
   (valid_lookup_domain a b x \<and> x \<le> 100 \<longrightarrow>
      get_delay_density sys x (Fin a) (Fin b) =
        entry_at (gamma_density_lookup sys) (nat (index100 a)) (nat (index100 b)) (nat x) \<and>
      get_delay_tail sys x (Fin a) (Fin b) =
        entry_at (gamma_tail_lookup sys) (nat (index100 a)) (nat (index100 b)) (nat x)) \<and>
   (m \<in> {PInf, NInf} \<or> s \<in> {PInf, NInf} \<longrightarrow>
      get_delay_density sys x m s = Inl (RcppStop '''') \<and>
      get_delay_tail sys x m s = Inl (RcppStop '''')) \<and>
   get_delay_density sys x (Fin 25) s = Inl (RcppStop '''') \<and>
   get_delay_tail sys x (Fin 25) s = Inl (RcppStop '''')"
  using delay_outside [of a b x sys] delay_beyond_table [of a b x sys]
    delay_entry [of a b x sys] delay_mean_25 [of sys x s]
    delay_infinite_stops [of m s sys x]
  by blast

lemma const_table_entry:
  "a < 2001 \<Longrightarrow> b < 101 \<Longrightarrow> c < 101 \<Longrightarrow> entry_at (const_table v) a b c = Inr v"
  by (simp add: entry_at_def const_table_def)

lemma valid_10_half: "0 \<le> x \<Longrightarrow> valid_lookup_domain 10 (1/2) x"
  by (simp add: valid_lookup_domain_def index100_10 index100_half)

lemma delay_lookup_examples:
  "get_delay_density unit_table_system 3 (Fin 25) (Fin (1/2)) = Inl (RcppStop '''') \<and>
   get_delay_tail unit_table_system (- 1) (Fin 10) (Fin (1/2)) = Inl (RcppStop '''') \<and>
   get_delay_density unit_table_system 3 PInf (Fin (1/2)) = Inl (RcppStop '''') \<and>
   get_delay_density unit_table_system 101 (Fin 10) (Fin (1/2)) = Inr (Fin density_floor) \<and>
   get_delay_tail unit_table_system 101 (Fin 10) (Fin (1/2)) = Inr (Fin density_floor) \<and>
   get_delay_density unit_table_system 3 (Fin 10) (Fin (1/2)) = Inr (Fin 1) \<and>
   get_delay_tail unit_table_system 3 (Fin 10) (Fin (1/2)) = Inr (Fin 1)"
  using delay_lookup_cases [of 25 "1/2" 3 unit_table_system PInf "Fin (1/2)"]
    delay_lookup_cases [of 10 "1/2" "- 1" unit_table_system]
    delay_lookup_cases [of 10 "1/2" 101 unit_table_system]
    delay_lookup_cases [of 10 "1/2" 3 unit_table_system]
  by (simp add: valid_lookup_domain_def index100_10 index100_half index100_25
      unit_table_system_def const_table_entry)

text \<open>
  A NaN can reach the calls: for a parameter of kind 3 at its upper bound \<open>theta_to_phi\<close>
  stores plus infinity, and for a proposal at plus infinity \<open>phi_prop_to_theta_prop\<close>
  computes infinity over infinity.
\<close>

lemma kind3_at_upper_bound:
  assumes "i < length (trans_type sys)" "i < length (theta_min sys)"
    "i < length (theta_max sys)" "i < length (theta p)" "i < length (phi p)"
    and "trans_type sys ! i = 3" "theta_min sys ! i = Fin mn" "theta_max sys ! i = Fin mx"
    and "mn < mx" "theta p ! i = Fin mx"
  shows "theta_to_phi_at sys i p = Inr (p\<lparr>phi := (phi p)[i := PInf]\<rparr>)"
  using assms by (simp add: theta_to_phi_at_def dsub_def)

lemma kind3_infinite_proposal:
  assumes "i < length (trans_type sys)" "i < length (theta_min sys)"
    "i < length (theta_max sys)" "i < length (phi_prop p)" "i < length (theta_prop p)"
    and "trans_type sys ! i = 3" "theta_min sys ! i = Fin mn" "theta_max sys ! i = Fin mx"
    and "phi_prop p ! i = PInf"
  shows "phi_prop_to_theta_prop sys i p = Inr (p\<lparr>theta_prop := (theta_prop p)[i := NaN]\<rparr>)"
proof -
  have "ddiv (dadd (inf_signed mx PInf) (Fin mn)) PInf = NaN"
    by (simp add: inf_signed_def)
  with assms show ?thesis by (simp add: phi_prop_to_theta_prop_def)
qed

text \<open>
  C6 (the code departs from the claim). A NaN mean or coefficient of variation is outside
  every range, but the guard of \<open>get_delay_density\<close> and \<open>get_delay_tail\<close> is made of
  comparisons, which are all false for a NaN: with the other argument and the day inside
  the domain the call does not stop the run. It returns the floor \<open>1e-200\<close> for \<open>x > 100\<close>
  and otherwise indexes the table with the NaN, which is undefined.
\<close>

theorem delay_nan_passes_guard:
  assumes "0 \<le> index100 a" "index100 a \<le> 2000" "0 \<le> index100 b" "index100 b \<le> 100"
    and "0 \<le> x"
  shows "get_delay_density sys x NaN (Fin b) =
           (if x > 100 then Inr (Fin density_floor) else Inl Undefined) \<and>
         get_delay_tail sys x NaN (Fin b) =
           (if x > 100 then Inr (Fin density_floor) else Inl Undefined) \<and>
         get_delay_density sys x (Fin a) NaN =
           (if x > 100 then Inr (Fin density_floor) else Inl Undefined) \<and>
         get_delay_tail sys x (Fin a) NaN =
           (if x > 100 then Inr (Fin density_floor) else Inl Undefined) \<and>
         get_delay_density sys x NaN (Fin b) \<noteq> Inl (RcppStop '''') \<and>
         get_delay_tail sys x NaN (Fin b) \<noteq> Inl (RcppStop '''') \<and>
         get_delay_density sys x (Fin a) NaN \<noteq> Inl (RcppStop '''') \<and>
         get_delay_tail sys x (Fin a) NaN \<noteq> Inl (RcppStop '''')"
proof -
  have ga: "\<not> (dless (dfloor (dmul64 (Fin a) (Fin 100))) (Fin 0) \<or>
      dgreater (dfloor (dmul64 (Fin a) (Fin 100))) (Fin 2000))"
    using scaled_index_range [of 2000 a] assms(1,2) by simp
  have gb: "\<not> (dless (dfloor (dmul64 (Fin b) (Fin 100))) (Fin 0) \<or>
      dgreater (dfloor (dmul64 (Fin b) (Fin 100))) (Fin 100))"
    using scaled_index_range [of 100 b] assms(3,4) by simp
  have n: "dfloor (dmul64 NaN (Fin 100)) = NaN"
    by (simp add: dmul64_def)
  have l1: "lookup3 t NaN v x = Inl Undefined" for t v
    by (simp add: lookup3_def)
  have l2: "lookup3 t v NaN x = Inl Undefined" for t v
    by (cases v) (simp_all add: lookup3_def vec_at_def)
  from ga gb assms(5) show ?thesis
    unfolding get_delay_density_def get_delay_tail_def Let_def n l1 l2
    by (simp add: dgreater_def)
qed

theorem delay_nan_passes_guard_witness:
  "get_delay_density unit_table_system 3 NaN (Fin (1/2)) = Inl Undefined \<and>
   get_delay_tail unit_table_system 101 NaN (Fin (1/2)) = Inr (Fin density_floor) \<and>
   get_delay_density unit_table_system 3 (Fin 10) NaN = Inl Undefined \<and>
   get_delay_density unit_table_system 3 NaN (Fin (1/2)) \<noteq> Inl (RcppStop '''')"
  using delay_nan_passes_guard [of 10 "1/2" 3 unit_table_system]
    delay_nan_passes_guard [of 10 "1/2" 101 unit_table_system]
  by (simp add: index100_10 index100_half)

text \<open>
  C8 (the code departs from the claim). Inside the valid lookup domain and for a day up
  to 100, \<open>get_delay_density\<close> and \<open>get_delay_tail\<close> return the stored element of the table
  as it is: the lookup path has no floor of its own, so an element below \<open>1e-200\<close> comes
  back below \<open>1e-200\<close>.
\<close>

theorem delay_returns_stored_element:
  assumes "valid_lookup_domain a b x" "x \<le> 100"
    and "entry_at (gamma_density_lookup sys) (nat (index100 a)) (nat (index100 b)) (nat x)
           = Inr v"
    and "entry_at (gamma_tail_lookup sys) (nat (index100 a)) (nat (index100 b)) (nat x)
           = Inr w"
  shows "get_delay_density sys x (Fin a) (Fin b) = Inr v \<and>
         get_delay_tail sys x (Fin a) (Fin b) = Inr w"
  using assms delay_entry [of a b x sys] by simp

theorem delay_returns_stored_element_witness:
  "valid_lookup_domain 10 (1/2) 3 \<and>
   get_delay_density zero_table_system 3 (Fin 10) (Fin (1/2)) = Inr (Fin 0) \<and>
   get_delay_tail zero_table_system 3 (Fin 10) (Fin (1/2)) = Inr (Fin 0) \<and>
   \<not> at_least_floor (Fin 0)"
proof -
  have dom: "valid_lookup_domain 10 (1/2) 3"
    by (rule valid_10_half) simp
  have e: "entry_at (gamma_density_lookup zero_table_system) (nat (index100 10))
        (nat (index100 (1/2))) (nat 3) = Inr (Fin 0)"
      "entry_at (gamma_tail_lookup zero_table_system) (nat (index100 10))
        (nat (index100 (1/2))) (nat 3) = Inr (Fin 0)"
    by (simp_all add: zero_table_system_def const_table_entry index100_10 index100_half)
  from delay_returns_stored_element [OF dom _ e] dom density_floor_pos show ?thesis
    by simp
qed

text \<open>
  With tables whose elements are all at least the floor, the values returned inside the
  valid lookup domain are positive and at least the floor, and tables of the full size
  give a value for every call inside the domain.
\<close>

lemma entry_at_least_floor:
  assumes "entries_at_least_floor t" "entry_at t a b c = Inr v"
  shows "at_least_floor v"
proof -
  from assms(2) have i: "a < length t" "b < length (t ! a)" "c < length (t ! a ! b)"
    and v: "v = t ! a ! b ! c"
    by (auto simp: entry_at_def bindE_Inr_iff vec_at_Inr_iff)
  from assms(1) i show ?thesis unfolding v
    by (simp add: entries_at_least_floor_def list_all_length)
qed

lemma entry_at_full:
  assumes "table_full t" "a \<le> 2000" "b \<le> 100" "c \<le> 100"
  shows "\<exists>v. entry_at t a b c = Inr v"
proof -
  from assms have a: "a < length t" by (simp add: table_full_def)
  with assms have b: "b < length (t ! a)" by (simp add: table_full_def list_all_length)
  from assms a b have "c < length (t ! a ! b)" by (simp add: table_full_def list_all_length)
  with a b show ?thesis by (simp add: entry_at_def)
qed

lemma at_least_floor_positive: "at_least_floor v \<Longrightarrow> dless (Fin 0) v"
  using density_floor_pos by (cases v) auto

lemma delay_values_at_least_floor:
  assumes dom: "valid_lookup_domain a b x"
    and ent: "entries_at_least_floor (gamma_density_lookup sys)"
      "entries_at_least_floor (gamma_tail_lookup sys)"
  shows "(\<forall>v. get_delay_density sys x (Fin a) (Fin b) = Inr v \<longrightarrow>
            at_least_floor v \<and> dless (Fin 0) v) \<and>
         (\<forall>v. get_delay_tail sys x (Fin a) (Fin b) = Inr v \<longrightarrow>
            at_least_floor v \<and> dless (Fin 0) v) \<and>
         (table_full (gamma_density_lookup sys) \<longrightarrow>
            (\<exists>v. get_delay_density sys x (Fin a) (Fin b) = Inr v)) \<and>
         (table_full (gamma_tail_lookup sys) \<longrightarrow>
            (\<exists>v. get_delay_tail sys x (Fin a) (Fin b) = Inr v))"
proof (cases "x > 100")
  case True
  with dom delay_beyond_table [of a b x sys] show ?thesis
    by (auto simp: density_floor_pos)
next
  case False
  from dom have r: "nat (index100 a) \<le> 2000" "nat (index100 b) \<le> 100"
    unfolding valid_lookup_domain_def by linarith+
  from False dom have c: "nat x \<le> 100" by simp
  from False dom delay_entry [of a b x sys]
  have e: "get_delay_density sys x (Fin a) (Fin b) =
        entry_at (gamma_density_lookup sys) (nat (index100 a)) (nat (index100 b)) (nat x)"
      "get_delay_tail sys x (Fin a) (Fin b) =
        entry_at (gamma_tail_lookup sys) (nat (index100 a)) (nat (index100 b)) (nat x)"
    by simp_all
  show ?thesis unfolding e
    using entry_at_least_floor [OF ent(1)] entry_at_least_floor [OF ent(2)]
      entry_at_full [OF _ r c] at_least_floor_positive
    by blast
qed

lemma const_table_full: "table_full (const_table v)"
  by (simp add: table_full_def const_table_def list_all_length)

lemma const_table_floor: "at_least_floor v \<Longrightarrow> entries_at_least_floor (const_table v)"
  by (simp add: entries_at_least_floor_def const_table_def list_all_length)

section \<open>The powers of the rungs\<close>

lemma iterate_fill:
  assumes "set js \<subseteq> {..<length v}"
  shows "\<exists>v'. iterate (\<lambda>r v. vec_set v r (f r)) js v = Inr v' \<and> length v' = length v \<and>
           (\<forall>r \<in> set js. v' ! r = f r) \<and> (\<forall>r. r \<notin> set js \<longrightarrow> v' ! r = v ! r)"
  using assms
proof (induction js arbitrary: v)
  case Nil
  then show ?case by simp
next
  case (Cons j js)
  from Cons.prems have j: "j < length v" and sub: "set js \<subseteq> {..<length (v[j := f j])}"
    by simp_all
  from Cons.IH [OF sub] obtain v' where
    v': "iterate (\<lambda>r v. vec_set v r (f r)) js (v[j := f j]) = Inr v'"
        "length v' = length v" "\<forall>r \<in> set js. v' ! r = f r"
        "\<forall>r. r \<notin> set js \<longrightarrow> v' ! r = v[j := f j] ! r"
    by auto
  have "v' ! r = f r" if "r \<in> set (j # js)" for r
    using that v'(3,4) j by (cases "r \<in> set js") auto
  moreover have "v' ! r = v ! r" if "r \<notin> set (j # js)" for r
    using that v'(4) by simp
  moreover have "iterate (\<lambda>r v. vec_set v r (f r)) (j # js) v = Inr v'"
    using j v'(1) by simp
  ultimately show ?case using v'(2) by blast
qed

lemma beta_raised_vec_values:
  assumes "0 \<le> rungs sys"
  shows "\<exists>v. beta_raised_vec sys = Inr v \<and> length v = nat (rungs sys) \<and>
           (\<forall>r < nat (rungs sys). v ! r =
              (if rungs sys = 1 then Fin 1
               else dpow (dsub (Fin 1) (ddiv (of_cint (int r)) (of_cint (rungs sys - 1))))
                      (GTI_pow sys)))"
proof -
  let ?f = "\<lambda>r. if rungs sys = 1 then Fin 1
      else dpow (dsub (Fin 1) (ddiv (of_cint (int r)) (of_cint (rungs sys - 1)))) (GTI_pow sys)"
  have b: "beta_raised_at sys = (\<lambda>r v. vec_set v r (?f r))"
    by (intro ext) (simp add: beta_raised_at_def)
  have "set [0..<nat (rungs sys)] \<subseteq> {..<length (replicate (nat (rungs sys)) (Fin 0))}"
    by auto
  from iterate_fill [OF this, of ?f] show ?thesis
    unfolding beta_raised_vec_def for_loop_upt b by auto
qed

text \<open>
  C5 (the code departs from the claim). With two or more rungs and a positive power,
  \<open>run_mcmc\<close> gives rung 0 the power \<open>pow(1, GTI_pow) = 1\<close> and rung \<open>rungs - 1\<close> the power
  \<open>pow(0, GTI_pow) = 0\<close>: the rung with \<open>beta_raised = 1\<close> is the first one, not the last.
\<close>

theorem beta_raised_last_rung_zero:
  assumes "2 \<le> rungs sys" "GTI_pow sys = Fin g" "0 < g"
  shows "\<exists>v. beta_raised_vec sys = Inr v \<and> length v = nat (rungs sys) \<and>
           v ! 0 = Fin 1 \<and> v ! (nat (rungs sys) - 1) = Fin 0 \<and>
           v ! (nat (rungs sys) - 1) \<noteq> Fin 1"
proof -
  from assms(1) have n: "0 \<le> rungs sys" "rungs sys \<noteq> 1" "0 < nat (rungs sys)"
      "nat (rungs sys) - 1 < nat (rungs sys)"
    by simp_all
  from beta_raised_vec_values [OF n(1)] obtain v where
    v: "beta_raised_vec sys = Inr v" "length v = nat (rungs sys)"
       "\<forall>r < nat (rungs sys). v ! r =
          (if rungs sys = 1 then Fin 1
           else dpow (dsub (Fin 1) (ddiv (of_cint (int r)) (of_cint (rungs sys - 1))))
                  (GTI_pow sys))"
    by blast
  have first: "v ! 0 = Fin 1"
    using v(3) n assms(1) by (simp add: of_cint_def dsub_def dpow_def)
  have "int (nat (rungs sys) - 1) = rungs sys - 1"
    using assms(1) by simp
  then have "ddiv (of_cint (int (nat (rungs sys) - 1))) (of_cint (rungs sys - 1)) = Fin 1"
    using assms(1) by (simp add: of_cint_def)
  then have last: "v ! (nat (rungs sys) - 1) = Fin 0"
    using v(3) n(2,4) assms(2,3) by (simp add: dsub_def dpow_def)
  from v(1,2) first last show ?thesis by simp
qed

theorem beta_raised_last_rung_zero_witness:
  "beta_raised_vec two_rung_system = Inr [Fin 1, Fin 0]"
proof -
  from beta_raised_last_rung_zero [of two_rung_system 3] obtain v where
    v: "beta_raised_vec two_rung_system = Inr v" "length v = 2" "v ! 0 = Fin 1"
       "v ! 1 = Fin 0"
    by (auto simp: two_rung_system_def empty_system_def)
  from v(2) obtain a b where "v = [a, b]"
    by (cases v; simp; case_tac list; simp)
  with v show ?thesis by simp
qed

text \<open>
  The powers are monotonic: for a non-negative power they do not increase along the
  rungs.
\<close>

lemma beta_raised_monotone:
  assumes "0 \<le> rungs sys" "GTI_pow sys = Fin g" "0 \<le> g"
  shows "\<exists>v. beta_raised_vec sys = Inr v \<and>
           (\<forall>r r'. r \<le> r' \<and> r' < nat (rungs sys) \<longrightarrow>
              (\<exists>a b. v ! r = Fin a \<and> v ! r' = Fin b \<and> b \<le> a))"
proof -
  from beta_raised_vec_values [OF assms(1)] obtain v where
    v: "beta_raised_vec sys = Inr v"
       "\<forall>r < nat (rungs sys). v ! r =
          (if rungs sys = 1 then Fin 1
           else dpow (dsub (Fin 1) (ddiv (of_cint (int r)) (of_cint (rungs sys - 1))))
                  (GTI_pow sys))"
    by blast
  have "\<exists>a b. v ! r = Fin a \<and> v ! r' = Fin b \<and> b \<le> a"
    if rr: "r \<le> r'" "r' < nat (rungs sys)" for r r'
  proof (cases "rungs sys = 1")
    case True
    with v(2) rr show ?thesis by simp
  next
    case False
    with rr have big: "2 \<le> rungs sys" by simp
    define n where "n = real_of_int (rungs sys - 1)"
    have npos: "0 < n" using big by (simp add: n_def)
    define x where "x = 1 - real r / n"
    define y where "y = 1 - real r' / n"
    have "real r' \<le> n" using rr(2) big by (simp add: n_def)
    then have y0: "0 \<le> y" using npos by (simp add: y_def)
    have yx: "y \<le> x" using rr(1) npos by (simp add: x_def y_def divide_right_mono)
    have vr: "v ! r = dpow (Fin x) (Fin g)"
      using v(2) rr False npos assms(2) by (simp add: of_cint_def dsub_def x_def n_def)
    have vr': "v ! r' = dpow (Fin y) (Fin g)"
      using v(2) rr False npos assms(2) by (simp add: of_cint_def dsub_def y_def n_def)
    show ?thesis
    proof (cases "g = 0")
      case True
      then show ?thesis unfolding vr vr' by (simp add: dpow_def)
    next
      case False
      with assms(3) have g: "0 < g" by simp
      have x1: "x \<le> 1" using npos by (simp add: x_def)
      have le: "y powr g \<le> x powr g"
        using y0 yx g by (simp add: powr_mono2)
      then have "x = 1 \<Longrightarrow> y powr g \<le> 1" by simp
      with le show ?thesis unfolding vr vr'
        using y0 yx x1 g by (auto simp: dpow_def)
    qed
  qed
  with v(1) show ?thesis by blast
qed

section \<open>Metropolis coupling\<close>

lemma rung_state_kept_refl: "rung_state_kept q q"
  by (simp add: rung_state_kept_def)

lemma rung_state_kept_trans:
  "rung_state_kept q q' \<Longrightarrow> rung_state_kept q' q'' \<Longrightarrow> rung_state_kept q q''"
  by (simp add: rung_state_kept_def)

lemma coupling_step_result:
  fixes ext :: "'g ext"
  assumes "i + 1 < length pv" "i < length mc"
  shows "coupling_step ext i (pv, mc, g) =
     Inr (if dless (dlog (fst (runif_0_1 ext g)))
               (dsub (dadd (dmul (loglike (pv ! (i + 1))) (beta_raised (pv ! i)))
                           (dmul (loglike (pv ! i)) (beta_raised (pv ! (i + 1)))))
                     (dadd (dmul (loglike (pv ! i)) (beta_raised (pv ! i)))
                           (dmul (loglike (pv ! (i + 1))) (beta_raised (pv ! (i + 1))))))
          then (pv[i := (pv ! i)\<lparr>theta := theta (pv ! (i + 1)), phi := phi (pv ! (i + 1)),
                        loglike := loglike (pv ! (i + 1)),
                        logprior := logprior (pv ! (i + 1))\<rparr>,
                   i + 1 := (pv ! (i + 1))\<lparr>theta := theta (pv ! i), phi := phi (pv ! i),
                        loglike := loglike (pv ! i), logprior := logprior (pv ! i)\<rparr>],
                mc[i := mc ! i + 1], snd (runif_0_1 ext g))
          else (pv, mc, snd (runif_0_1 ext g)))"
  using assms by (simp add: coupling_step_def acceptance_def split: prod.splits)

lemma coupling_step_kept:
  fixes ext :: "'g ext"
  assumes "coupling_step ext i (pv, mc, g) = Inr (pv', mc', g')"
  shows "list_all2 rung_state_kept pv pv' \<and> length mc' = length mc"
proof -
  from assms have i: "i < length pv" "i + 1 < length pv"
    by (auto simp: coupling_step_def bindE_Inr_iff vec_at_Inr_iff)
  show ?thesis
  proof (cases "dless (dlog (fst (runif_0_1 ext g))) (acceptance (pv ! i) (pv ! (i + 1)))")
    case False
    with assms i show ?thesis
      by (auto simp: coupling_step_def list.rel_refl rung_state_kept_refl split: prod.splits)
  next
    case True
    with assms i have mc: "i < length mc" "mc' = mc[i := mc ! i + 1]"
      and pv': "pv' = pv[i := (pv ! i)\<lparr>theta := theta (pv ! (i + 1)),
                        phi := phi (pv ! (i + 1)), loglike := loglike (pv ! (i + 1)),
                        logprior := logprior (pv ! (i + 1))\<rparr>,
                   i + 1 := (pv ! (i + 1))\<lparr>theta := theta (pv ! i), phi := phi (pv ! i),
                        loglike := loglike (pv ! i), logprior := logprior (pv ! i)\<rparr>]"
      by (auto simp: coupling_step_def bindE_Inr_iff vec_at_Inr_iff vec_set_Inr_iff
          split: prod.splits)
    have "rung_state_kept (pv ! k) (pv' ! k)" if "k < length pv" for k
      using that i unfolding pv'
      by (cases "k = i + 1"; cases "k = i"; simp add: rung_state_kept_def)
    moreover have "length pv = length pv'" unfolding pv' by simp
    ultimately have "list_all2 rung_state_kept pv pv'"
      by (intro list_all2_all_nthI) auto
    with mc show ?thesis by simp
  qed
qed

lemma coupling_iterate_kept:
  fixes ext :: "'g ext"
  assumes "iterate (coupling_step ext) js (pv, mc, g) = Inr (pv', mc', g')"
  shows "list_all2 rung_state_kept pv pv' \<and> length mc' = length mc"
  using assms
proof (induction js arbitrary: pv mc g)
  case Nil
  then show ?case by (simp add: list.rel_refl rung_state_kept_refl)
next
  case (Cons j js)
  from Cons.prems obtain pv1 mc1 g1 where
    s: "coupling_step ext j (pv, mc, g) = Inr (pv1, mc1, g1)"
    and r: "iterate (coupling_step ext) js (pv1, mc1, g1) = Inr (pv', mc', g')"
    by (auto simp: bindE_Inr_iff)
  from coupling_step_kept [OF s] Cons.IH [OF r] show ?case
    by (auto intro: list_all2_trans [OF rung_state_kept_trans])
qed

lemma coupling_iterate_returns:
  fixes ext :: "'g ext"
  assumes "\<forall>j \<in> set js. j + 1 < length pv \<and> j < length mc"
  shows "\<exists>r. iterate (coupling_step ext) js (pv, mc, g) = Inr r"
  using assms
proof (induction js arbitrary: pv mc g)
  case Nil
  then show ?case by simp
next
  case (Cons j js)
  from Cons.prems have j: "j + 1 < length pv" "j < length mc" by simp_all
  from coupling_step_result [OF j, of ext g] obtain pv1 mc1 g1 where
    s: "coupling_step ext j (pv, mc, g) = Inr (pv1, mc1, g1)"
    by (metis prod_cases3)
  from coupling_step_kept [OF s] have "length pv1 = length pv" "length mc1 = length mc"
    by (auto dest: list_all2_lengthD)
  with Cons.prems have "\<forall>j \<in> set js. j + 1 < length pv1 \<and> j < length mc1" by simp
  from Cons.IH [OF this] s show ?case by simp
qed

text \<open>
  C3. \<open>coupling\<close> is one pass of the step for the pairs \<open>(i, i+1)\<close>, \<open>i\<close> from 0 to
  \<open>rungs - 2\<close> in increasing order. The step draws one uniform number, accepts iff its
  logarithm is below \<open>(L2*beta1 + L1*beta2) - (L1*beta1 + L2*beta2)\<close>, and on acceptance
  exchanges exactly \<open>theta\<close>, \<open>phi\<close>, \<open>loglike\<close> and \<open>logprior\<close> of the two rungs and adds
  one to the counter of the pair; otherwise rungs and counters are unchanged. After the
  pass every rung still has its own \<open>bw\<close>, \<open>bw_index\<close>, \<open>bw_stepsize\<close>, \<open>accept_count\<close>
  and \<open>beta_raised\<close>; and the pass returns when there is a counter for every pair.
\<close>

theorem coupling_pass:
  fixes ext :: "'g ext"
  shows
  "coupling ext (pv, mc, g) = iterate (coupling_step ext) [0..<length pv - 1] (pv, mc, g) \<and>
   (\<forall>i. i + 1 < length pv \<and> i < length mc \<longrightarrow>
      coupling_step ext i (pv, mc, g) =
        Inr (if dless (dlog (fst (runif_0_1 ext g)))
                  (dsub (dadd (dmul (loglike (pv ! (i + 1))) (beta_raised (pv ! i)))
                              (dmul (loglike (pv ! i)) (beta_raised (pv ! (i + 1)))))
                        (dadd (dmul (loglike (pv ! i)) (beta_raised (pv ! i)))
                              (dmul (loglike (pv ! (i + 1))) (beta_raised (pv ! (i + 1))))))
             then (pv[i := (pv ! i)\<lparr>theta := theta (pv ! (i + 1)), phi := phi (pv ! (i + 1)),
                           loglike := loglike (pv ! (i + 1)),
                           logprior := logprior (pv ! (i + 1))\<rparr>,
                      i + 1 := (pv ! (i + 1))\<lparr>theta := theta (pv ! i), phi := phi (pv ! i),
                           loglike := loglike (pv ! i), logprior := logprior (pv ! i)\<rparr>],
                   mc[i := mc ! i + 1], snd (runif_0_1 ext g))
             else (pv, mc, snd (runif_0_1 ext g)))) \<and>
   (\<forall>pv' mc' g'. coupling ext (pv, mc, g) = Inr (pv', mc', g') \<longrightarrow>
      list_all2 rung_state_kept pv pv' \<and> length mc' = length mc) \<and>
   (length pv - 1 \<le> length mc \<longrightarrow> (\<exists>r. coupling ext (pv, mc, g) = Inr r))"
proof -
  have n: "nat (int (length pv) - 1) = length pv - 1" by simp
  have loop: "coupling ext (pv, mc, g) =
      iterate (coupling_step ext) [0..<length pv - 1] (pv, mc, g)"
    by (simp add: coupling_def for_loop_upt n)
  have ret: "\<exists>r. coupling ext (pv, mc, g) = Inr r" if "length pv - 1 \<le> length mc"
    unfolding loop using that
    by (intro coupling_iterate_returns) auto
  show ?thesis
    using loop coupling_step_result [of _ pv mc ext g] coupling_iterate_kept [of ext _ pv mc g] ret
    by (simp only:) blast
qed

theorem coupling_pass_witness:
  "coupling fixed_ext ([rung_a, rung_b], [0], 0) =
     Inr ([rung_a\<lparr>theta := [Fin 2], phi := [Fin 2], loglike := Fin 1, logprior := Fin 4\<rparr>,
           rung_b\<lparr>theta := [Fin 1], phi := [Fin 1], loglike := Fin 0, logprior := Fin 3\<rparr>],
          [1], 1)"
proof -
  have "ln (1/2::real) < 0"
    by (rule ln_less_zero) simp_all
  then have l: "ln (1/2::real) < 1" by linarith
  from coupling_pass [of fixed_ext "[rung_a, rung_b]" "[0]" 0]
  have loop: "coupling fixed_ext ([rung_a, rung_b], [0], 0) =
      iterate (coupling_step fixed_ext) [0..<length [rung_a, rung_b] - 1]
        ([rung_a, rung_b], [0], 0)"
    by (rule conjunct1)
  from coupling_pass [of fixed_ext "[rung_a, rung_b]" "[0]" 0,
      THEN conjunct2, THEN conjunct1, THEN spec, of 0]
  have step: "coupling_step fixed_ext 0 ([rung_a, rung_b], [0], 0) =
     Inr ([rung_a\<lparr>theta := [Fin 2], phi := [Fin 2], loglike := Fin 1, logprior := Fin 4\<rparr>,
           rung_b\<lparr>theta := [Fin 1], phi := [Fin 1], loglike := Fin 0, logprior := Fin 3\<rparr>],
          [1], 1)"
    using l by (simp add: fixed_ext_def rung_a_def rung_b_def dsub_def)
  show ?thesis unfolding loop using step by simp
qed

section \<open>Finiteness of the log-likelihood\<close>

lemma age_step_nonfinite:
  fixes ext :: "'g ext"
  assumes "age_terms ext sys q k ret = Inr r" "\<not> isfinite r"
  shows "age_step ext sys q k ret = Inl (RcppStop ''ret non finite'')"
  using assms by (simp add: age_step_def)

lemma age_step_finite:
  fixes ext :: "'g ext"
  assumes "age_step ext sys q k ret = Inr r"
  shows "isfinite r"
  using assms by (auto simp: age_step_def bindE_Inr_iff split: if_splits)

lemma catch_underflow_finite: "isfinite (catch_underflow ret)"
  by (simp add: catch_underflow_def)

lemma get_loglike_nonfinite:
  fixes ext :: "'g ext"
  assumes u: "unpack_nodes sys th p = Inr p1" "unpack_cv sys th p1 = Inr p2"
    and k: "int k \<le> max_indlevel_age sys"
    and run: "iterate (age_step ext sys (splines ext sys p2)) [0..<k] (Fin 0) = Inr tot"
    and bad: "age_terms ext sys (splines ext sys p2) k tot = Inr r" "\<not> isfinite r"
  shows "get_loglike ext sys th i p = Inl (RcppStop ''ret non finite'')"
proof -
  let ?n = "nat (max_indlevel_age sys + 1)"
  from k have "k < ?n" by simp
  then have "[0..<?n] = [0..<k] @ k # [Suc k..<?n]"
    using upt_add_eq_append [of 0 k "?n - k"] by (simp add: upt_conv_Cons)
  then have "iterate (age_step ext sys (splines ext sys p2)) [0..<?n] (Fin 0) =
      Inl (RcppStop ''ret non finite'')"
    using run age_step_nonfinite [OF bad] by (simp add: iterate_append)
  with u show ?thesis by (simp add: get_loglike_def for_loop_upt)
qed

text \<open>
  C7. In the accumulation of \<open>get_loglike\<close> the running sum is checked after every age:
  a non-finite sum stops the run with \<open>ret non finite\<close>, both for the single step and
  for the whole call once the earlier ages have passed. At the end a non-finite total
  is replaced by \<open>-DBL_MAX/100\<close>; the value that \<open>get_loglike\<close> returns is that of
  \<open>catch_underflow\<close> on the total, and it is always finite.
\<close>

theorem loglike_finiteness:
  fixes ext :: "'g ext"
  shows
  "(\<forall>r. age_terms ext sys q k ret = Inr r \<and> \<not> isfinite r \<longrightarrow>
      age_step ext sys q k ret = Inl (RcppStop ''ret non finite'')) \<and>
   (\<forall>r. age_step ext sys q k ret = Inr r \<longrightarrow> isfinite r) \<and>
   (\<forall>p1 p2 tot r.
      unpack_nodes sys th p = Inr p1 \<and> unpack_cv sys th p1 = Inr p2 \<and>
      int k \<le> max_indlevel_age sys \<and>
      iterate (age_step ext sys (splines ext sys p2)) [0..<k] (Fin 0) = Inr tot \<and>
      age_terms ext sys (splines ext sys p2) k tot = Inr r \<and> \<not> isfinite r \<longrightarrow>
      get_loglike ext sys th i p = Inl (RcppStop ''ret non finite'')) \<and>
   (\<not> isfinite ret \<longrightarrow> catch_underflow ret = Fin (- DBL_MAX / 100)) \<and>
   (\<forall>v p'. get_loglike ext sys th i p = Inr (v, p') \<longrightarrow>
      isfinite v \<and>
      (\<exists>p2 tot. for_loop 0 (max_indlevel_age sys + 1)
                  (age_step ext sys (splines ext sys p2)) (Fin 0) = Inr tot \<and>
                v = catch_underflow tot))"
proof (intro conjI allI impI)
  fix r assume "age_terms ext sys q k ret = Inr r \<and> \<not> isfinite r"
  then show "age_step ext sys q k ret = Inl (RcppStop ''ret non finite'')"
    using age_step_nonfinite by blast
next
  fix r assume "age_step ext sys q k ret = Inr r"
  then show "isfinite r" by (rule age_step_finite)
next
  fix p1 p2 tot r
  assume "unpack_nodes sys th p = Inr p1 \<and> unpack_cv sys th p1 = Inr p2 \<and>
      int k \<le> max_indlevel_age sys \<and>
      iterate (age_step ext sys (splines ext sys p2)) [0..<k] (Fin 0) = Inr tot \<and>
      age_terms ext sys (splines ext sys p2) k tot = Inr r \<and> \<not> isfinite r"
  then show "get_loglike ext sys th i p = Inl (RcppStop ''ret non finite'')"
    using get_loglike_nonfinite by blast
next
  assume "\<not> isfinite ret"
  then show "catch_underflow ret = Fin (- DBL_MAX / 100)"
    by (simp add: catch_underflow_def)
next
  fix v p' assume g: "get_loglike ext sys th i p = Inr (v, p')"
  then obtain p2 tot where
    t: "for_loop 0 (max_indlevel_age sys + 1) (age_step ext sys (splines ext sys p2)) (Fin 0)
          = Inr tot"
    and v: "v = catch_underflow tot"
    by (auto simp: get_loglike_def bindE_Inr_iff)
  from v show "isfinite v" by (simp add: catch_underflow_finite)
  from t v show "\<exists>p2 tot. for_loop 0 (max_indlevel_age sys + 1)
      (age_step ext sys (splines ext sys p2)) (Fin 0) = Inr tot \<and> v = catch_underflow tot"
    by blast
qed

text \<open>The likelihood of the one-age system: its value, and the stop on an infinite term.\<close>

lemma one_age_unpack_nodes:
  "unpack_nodes one_age_system one_age_theta one_age_particle = Inr one_age_particle"
  by (simp add: unpack_nodes_def copy_nodes_def copy_node_def for_loop_upt one_age_system_def
      one_age_theta_def one_age_particle_def empty_system_def empty_particle_def)

lemma one_age_unpack_cv:
  "unpack_cv one_age_system one_age_theta one_age_particle =
   Inr (one_age_particle\<lparr>s_AI := Fin (1/2), s_AD := Fin (1/2), s_AC := Fin (1/2),
     s_ID := Fin (1/2), s_IS := Fin (1/2), s_SC := Fin (1/2)\<rparr>)"
  by (simp add: unpack_cv_def one_age_system_def
      one_age_theta_def one_age_particle_def empty_system_def empty_particle_def)

lemma one_age_loglike:
  "\<exists>p'. get_loglike fixed_ext one_age_system one_age_theta i one_age_particle = Inr (Fin 0, p')"
  by (simp add: get_loglike_def one_age_unpack_nodes one_age_unpack_cv)
     (simp add: for_loop_upt age_step_def age_terms_def binom_term_def delay_loop_def
      splines_def logistic_curve_def get_delay_density_def dmul64_10 dmul64_half lookup3_def index_of_int_def
      dgreater_def catch_underflow_def of_cint_def
      fixed_ext_def one_age_system_def one_age_particle_def empty_system_def empty_particle_def
      const_table_def)

lemma one_age_terms_infinite:
  "age_terms impossible_ext one_age_system
     (splines impossible_ext one_age_system
        (one_age_particle\<lparr>s_AI := Fin (1/2), s_AD := Fin (1/2), s_AC := Fin (1/2),
           s_ID := Fin (1/2), s_IS := Fin (1/2), s_SC := Fin (1/2)\<rparr>)) 0 (Fin 0) = Inr NInf"
  by (simp add: age_terms_def binom_term_def delay_loop_def
      splines_def logistic_curve_def get_delay_density_def dmul64_10 dmul64_half lookup3_def index_of_int_def
      dgreater_def of_cint_def impossible_ext_def
      fixed_ext_def one_age_system_def one_age_particle_def empty_system_def empty_particle_def
      const_table_def)

theorem loglike_finiteness_witness:
  "(\<exists>p'. get_loglike fixed_ext one_age_system one_age_theta 0 one_age_particle
            = Inr (Fin 0, p')) \<and>
   isfinite (Fin 0) \<and>
   get_loglike impossible_ext one_age_system one_age_theta 0 one_age_particle
     = Inl (RcppStop ''ret non finite'') \<and>
   catch_underflow NaN = Fin (- DBL_MAX / 100)"
proof -
  note t = loglike_finiteness [where ext = impossible_ext and sys = one_age_system
      and k = 0 and th = one_age_theta and p = one_age_particle and i = 0 and ret = NaN]
  have k: "int 0 \<le> max_indlevel_age one_age_system"
    by (simp add: one_age_system_def empty_system_def)
  have "get_loglike impossible_ext one_age_system one_age_theta 0 one_age_particle
      = Inl (RcppStop ''ret non finite'')"
    using t [THEN conjunct2, THEN conjunct2, THEN conjunct1, rule_format,
        of one_age_particle _ "Fin 0" NInf]
      one_age_unpack_nodes one_age_unpack_cv one_age_terms_infinite k
    by simp
  moreover have "catch_underflow NaN = Fin (- DBL_MAX / 100)"
    using t by simp
  moreover obtain p' where
    g: "get_loglike fixed_ext one_age_system one_age_theta 0 one_age_particle = Inr (Fin 0, p')"
    using one_age_loglike by blast
  moreover have "isfinite (Fin 0)"
    using loglike_finiteness [where ext = fixed_ext and sys = one_age_system
      and th = one_age_theta and p = one_age_particle and i = 0] g by blast
  ultimately show ?thesis by blast
qed

section \<open>The Metropolis-Hastings step\<close>

lemma only_buffers_changed_refl: "only_buffers_changed p p"
  by (simp add: only_buffers_changed_def)

lemma only_buffers_changed_trans:
  "only_buffers_changed p p' \<Longrightarrow> only_buffers_changed p' p'' \<Longrightarrow> only_buffers_changed p p''"
  by (simp add: only_buffers_changed_def)

lemma unpack_nodes_buffers:
  assumes "unpack_nodes sys th p = Inr p'"
  shows "only_buffers_changed p p'"
  using assms
  by (auto simp: unpack_nodes_def Let_def bindE_Inr_iff only_buffers_changed_def)

lemma unpack_cv_buffers:
  assumes "unpack_cv sys th p = Inr p'"
  shows "only_buffers_changed p p'"
  using assms
  by (auto simp: unpack_cv_def Let_def bindE_Inr_iff only_buffers_changed_def)

lemma splines_buffers: "only_buffers_changed p (splines ext sys p)"
  by (simp add: splines_def only_buffers_changed_def)

lemma get_loglike_buffers:
  fixes ext :: "'g ext"
  assumes "get_loglike ext sys th j p = Inr (v, p')"
  shows "only_buffers_changed p p'"
proof -
  from assms obtain p1 p2 where
    a: "unpack_nodes sys th p = Inr p1" and b: "unpack_cv sys th p1 = Inr p2"
    and c: "p' = splines ext sys p2"
    by (auto simp: get_loglike_def bindE_Inr_iff)
  have "only_buffers_changed p p2"
    using unpack_nodes_buffers [OF a] unpack_cv_buffers [OF b]
    by (rule only_buffers_changed_trans)
  then show ?thesis
    unfolding c using splines_buffers by (rule only_buffers_changed_trans)
qed

lemma get_logprior_buffers:
  fixes ext :: "'g ext"
  assumes "get_logprior ext sys th j p = Inr (v, p')"
  shows "only_buffers_changed p p'"
proof -
  from assms have "unpack_nodes sys th p = Inr p'"
    by (auto simp: get_logprior_def bindE_Inr_iff)
  then show ?thesis by (rule unpack_nodes_buffers)
qed

lemma phi_prop_to_theta_prop_result:
  assumes "phi_prop_to_theta_prop sys i p = Inr p'"
  shows "\<exists>v. i < length (theta_prop p) \<and> p' = p\<lparr>theta_prop := (theta_prop p)[i := v]\<rparr>"
  using assms
  by (auto simp: phi_prop_to_theta_prop_def bindE_Inr_iff vec_set_Inr_iff)

lemma accept_move_result:
  assumes "accept_move i q = Inr p'"
  shows "i < length (theta q) \<and> i < length (phi q) \<and> i < length (bw q) \<and>
         i < length (bw_index q) \<and>
         p' = q\<lparr>theta := (theta q)[i := theta_prop q ! i],
                phi := (phi q)[i := phi_prop q ! i],
                loglike := loglike_prop q, logprior := logprior_prop q,
                bw := (bw q)[i := dexp (dadd (dlog (bw q ! i))
                         (ddiv (dmul (bw_stepsize q) (Fin (1 - 0.234)))
                               (dsqrt (of_cint (bw_index q ! i)))))],
                bw_index := (bw_index q)[i := bw_index q ! i + 1],
                accept_count := accept_count q + 1\<rparr>"
  using assms
  by (auto simp: accept_move_def bindE_Inr_iff vec_set_Inr_iff vec_at_Inr_iff)

lemma reject_move_result:
  assumes "reject_move i q = Inr p'"
  shows "i < length (theta_prop q) \<and> i < length (phi_prop q) \<and> i < length (bw q) \<and>
         i < length (bw_index q) \<and>
         p' = q\<lparr>theta_prop := (theta_prop q)[i := theta q ! i],
                phi_prop := (phi_prop q)[i := phi q ! i],
                bw := (bw q)[i := dexp (dsub (dlog (bw q ! i))
                         (ddiv (dmul (bw_stepsize q) (Fin 0.234))
                               (dsqrt (of_cint (bw_index q ! i)))))],
                bw_index := (bw_index q)[i := bw_index q ! i + 1]\<rparr>"
  using assms
  by (auto simp: reject_move_def bindE_Inr_iff vec_set_Inr_iff vec_at_Inr_iff)

text \<open>
  The stages of a step that is not skipped: the particle \<open>q\<close> holds the proposal, its
  likelihood and its prior beside the current values, and the step ends with one of the
  two moves on \<open>q\<close>.
\<close>

lemma update_param_stages:
  fixes ext :: "'g ext"
  assumes run: "update_param ext sys beta i (p, g) = Inr (p', g')"
    and ns: "i < length (skip_param sys)" "\<not> skip_param sys ! i"
  shows "\<exists>(q::particle) q0 q1 q2 adj.
      theta q = theta p \<and> phi q = phi p \<and> loglike q = loglike p \<and>
      logprior q = logprior p \<and> accept_count q = accept_count p \<and>
      bw q = bw p \<and> bw_index q = bw_index p \<and> bw_stepsize q = bw_stepsize p \<and>
      i < length (phi p) \<and> i < length (bw p) \<and> i < length (phi_prop p) \<and>
      phi_prop q = (phi_prop p)[i := fst (rnorm1 ext g (phi p ! i) (bw p ! i))] \<and>
      phi_prop_to_theta_prop sys i (p\<lparr>phi_prop := phi_prop q\<rparr>) = Inr q0 \<and>
      theta_prop q = theta_prop q0 \<and>
      get_adjustment sys i q0 = Inr adj \<and>
      get_loglike ext sys (theta_prop q) (int i) q0 = Inr (loglike_prop q, q1) \<and>
      get_logprior ext sys (theta_prop q) (int i) (q1\<lparr>loglike_prop := loglike_prop q\<rparr>)
        = Inr (logprior_prop q, q2) \<and>
      g' = snd (runif_0_1 ext (snd (rnorm1 ext g (phi p ! i) (bw p ! i)))) \<and>
      (if dless (dlog (fst (runif_0_1 ext (snd (rnorm1 ext g (phi p ! i) (bw p ! i))))))
             (MH_ratio beta q adj)
       then accept_move i q = Inr p' else reject_move i q = Inr p')"
proof -
  obtain z g1 where zg: "rnorm1 ext g (phi p ! i) (bw p ! i) = (z, g1)"
    by (cases "rnorm1 ext g (phi p ! i) (bw p ! i)")
  obtain u g2 where ug: "runif_0_1 ext g1 = (u, g2)"
    by (cases "runif_0_1 ext g1")
  from run ns zg ug obtain q0 adj ll q1 lp q2 where
    l: "i < length (phi p)" "i < length (bw p)" "i < length (phi_prop p)"
    and q0: "phi_prop_to_theta_prop sys i (p\<lparr>phi_prop := (phi_prop p)[i := z]\<rparr>) = Inr q0"
    and adj: "get_adjustment sys i q0 = Inr adj"
    and ll: "get_loglike ext sys (theta_prop q0) (int i) q0 = Inr (ll, q1)"
    and lp: "get_logprior ext sys (theta_prop q1) (int i) (q1\<lparr>loglike_prop := ll\<rparr>)
        = Inr (lp, q2)"
    and fin: "(if dless (dlog u) (MH_ratio beta (q2\<lparr>logprior_prop := lp\<rparr>) adj)
        then accept_move i (q2\<lparr>logprior_prop := lp\<rparr>)
        else reject_move i (q2\<lparr>logprior_prop := lp\<rparr>)) = Inr p'"
    and g': "g' = g2"
    by (auto simp: update_param_def bindE_Inr_iff vec_at_Inr_iff vec_set_Inr_iff
        split: prod.splits if_splits)
  let ?q = "q2\<lparr>logprior_prop := lp\<rparr>"
  from phi_prop_to_theta_prop_result [OF q0] obtain v where
    v: "q0 = p\<lparr>phi_prop := (phi_prop p)[i := z], theta_prop := (theta_prop p)[i := v]\<rparr>"
    by auto
  have b1: "only_buffers_changed q0 q1" using ll by (rule get_loglike_buffers)
  have b2: "only_buffers_changed (q1\<lparr>loglike_prop := ll\<rparr>) q2"
    using lp by (rule get_logprior_buffers)
  have keep: "theta ?q = theta p" "phi ?q = phi p" "loglike ?q = loglike p"
    "logprior ?q = logprior p" "accept_count ?q = accept_count p"
    "bw ?q = bw p" "bw_index ?q = bw_index p" "bw_stepsize ?q = bw_stepsize p"
    using b1 b2 v by (simp_all add: only_buffers_changed_def)
  have prp: "phi_prop ?q = (phi_prop p)[i := z]" "theta_prop ?q = theta_prop q0"
    "theta_prop q1 = theta_prop q0" "loglike_prop ?q = ll" "logprior_prop ?q = lp"
    using b1 b2 v by (simp_all add: only_buffers_changed_def)
  show ?thesis
    apply (rule exI [of _ ?q], rule exI [of _ q0], rule exI [of _ q1], rule exI [of _ q2],
        rule exI [of _ adj])
    using keep prp l q0 adj ll lp fin g' zg ug
    by (simp split: if_splits)
qed

text \<open>
  \<open>Particle::update\<close> copies the current vectors into the proposal buffers and runs the
  step for the parameters \<open>0, ..., d - 1\<close> in this order; a skipped parameter leaves the
  particle and the generator as they are.
\<close>

lemma update_sweep:
  fixes ext :: "'g ext"
  shows "update ext sys beta (p, g) =
     iterate (update_param ext sys beta) [0..<nat (d p)]
       (p\<lparr>theta_prop := theta p, phi_prop := phi p\<rparr>, g)"
  by (simp add: update_def for_loop_upt)

lemma update_param_skip:
  fixes ext :: "'g ext"
  assumes "i < length (skip_param sys)" "skip_param sys ! i"
  shows "update_param ext sys beta i (p, g) = Inr (p, g)"
  using assms by (simp add: update_param_def)

text \<open>
  C2. In a step of \<open>Particle::update\<close> for a parameter \<open>i\<close> that is not skipped, let \<open>q\<close>
  be the particle that holds the proposal: \<open>phi_prop[i]\<close> drawn by \<open>rnorm1\<close>,
  \<open>theta_prop[i]\<close> from the transform, \<open>loglike_prop\<close> and \<open>logprior_prop\<close> from the
  likelihood and the prior of \<open>theta_prop\<close>, and \<open>adj\<close> the adjustment. The ratio is
  \<open>beta*(loglike_prop - loglike) + (logprior_prop - logprior) + adj\<close>, the proposal is
  accepted iff \<open>log(u)\<close> is below it for the uniform draw \<open>u\<close>; on acceptance \<open>theta[i]\<close>,
  \<open>phi[i]\<close>, \<open>loglike\<close> and \<open>logprior\<close> take the proposed values, nothing else of
  \<open>theta\<close> and \<open>phi\<close> changes, and \<open>accept_count\<close> grows by one; on rejection all five
  stay as they were.
\<close>

theorem update_param_metropolis:
  fixes ext :: "'g ext"
  assumes run: "update_param ext sys beta i (p, g) = Inr (p', g')"
    and ns: "i < length (skip_param sys)" "\<not> skip_param sys ! i"
  shows "\<exists>(q::particle) q0 q1 q2 adj u.
      u = fst (runif_0_1 ext (snd (rnorm1 ext g (phi p ! i) (bw p ! i)))) \<and>
      phi_prop q = (phi_prop p)[i := fst (rnorm1 ext g (phi p ! i) (bw p ! i))] \<and>
      phi_prop_to_theta_prop sys i (p\<lparr>phi_prop := phi_prop q\<rparr>) = Inr q0 \<and>
      theta_prop q = theta_prop q0 \<and>
      get_adjustment sys i q0 = Inr adj \<and>
      get_loglike ext sys (theta_prop q) (int i) q0 = Inr (loglike_prop q, q1) \<and>
      get_logprior ext sys (theta_prop q) (int i) (q1\<lparr>loglike_prop := loglike_prop q\<rparr>)
        = Inr (logprior_prop q, q2) \<and>
      (if dless (dlog u)
            (dadd (dadd (dmul beta (dsub (loglike_prop q) (loglike p)))
                        (dsub (logprior_prop q) (logprior p)))
                  adj)
       then theta p' = (theta p)[i := theta_prop q ! i] \<and>
            phi p' = (phi p)[i := phi_prop q ! i] \<and>
            loglike p' = loglike_prop q \<and> logprior p' = logprior_prop q \<and>
            accept_count p' = accept_count p + 1
       else theta p' = theta p \<and> phi p' = phi p \<and> loglike p' = loglike p \<and>
            logprior p' = logprior p \<and> accept_count p' = accept_count p)"
proof -
  from update_param_stages [OF run ns] obtain q :: particle and q0 q1 q2 adj where
    keep: "theta q = theta p" "phi q = phi p" "loglike q = loglike p"
      "logprior q = logprior p" "accept_count q = accept_count p"
    and st: "phi_prop q = (phi_prop p)[i := fst (rnorm1 ext g (phi p ! i) (bw p ! i))]"
      "phi_prop_to_theta_prop sys i (p\<lparr>phi_prop := phi_prop q\<rparr>) = Inr q0"
      "theta_prop q = theta_prop q0"
      "get_adjustment sys i q0 = Inr adj"
      "get_loglike ext sys (theta_prop q) (int i) q0 = Inr (loglike_prop q, q1)"
      "get_logprior ext sys (theta_prop q) (int i) (q1\<lparr>loglike_prop := loglike_prop q\<rparr>)
        = Inr (logprior_prop q, q2)"
    and fin: "if dless (dlog (fst (runif_0_1 ext (snd (rnorm1 ext g (phi p ! i) (bw p ! i))))))
             (MH_ratio beta q adj)
       then accept_move i q = Inr p' else reject_move i q = Inr p'"
    by blast
  let ?u = "fst (runif_0_1 ext (snd (rnorm1 ext g (phi p ! i) (bw p ! i))))"
  have ratio: "MH_ratio beta q adj =
      dadd (dadd (dmul beta (dsub (loglike_prop q) (loglike p)))
                 (dsub (logprior_prop q) (logprior p))) adj"
    using keep by (simp add: MH_ratio_def)
  have "if dless (dlog ?u) (MH_ratio beta q adj)
       then theta p' = (theta p)[i := theta_prop q ! i] \<and>
            phi p' = (phi p)[i := phi_prop q ! i] \<and>
            loglike p' = loglike_prop q \<and> logprior p' = logprior_prop q \<and>
            accept_count p' = accept_count p + 1
       else theta p' = theta p \<and> phi p' = phi p \<and> loglike p' = loglike p \<and>
            logprior p' = logprior p \<and> accept_count p' = accept_count p"
  proof (cases "dless (dlog ?u) (MH_ratio beta q adj)")
    case True
    with fin have "accept_move i q = Inr p'" by simp
    from accept_move_result [OF this] True keep show ?thesis by auto
  next
    case False
    with fin have "reject_move i q = Inr p'" by simp
    from reject_move_result [OF this] False keep show ?thesis by auto
  qed
  with st show ?thesis unfolding ratio by blast
qed

text \<open>The step for the first parameter of the one-age system: the proposal is accepted.\<close>

lemma one_age_update_param:
  "\<exists>p'. update_param fixed_ext one_age_system (Fin 1) 0 (one_age_particle, 0) = Inr (p', 2) \<and>
     accept_count p' = 1 \<and> theta p' = one_age_theta \<and> phi p' = one_age_theta \<and>
     loglike p' = Fin 0 \<and> logprior p' = Fin (- (18 * ln 2)) \<and>
     bw p' ! 0 = Fin (exp (1 - 0.234)) \<and> bw_index p' ! 0 = 2"
proof -
  have "ln (1/2::real) < 0"
    by (rule ln_less_zero) simp_all
  then show ?thesis
    by (simp add: update_param_def phi_prop_to_theta_prop_def get_adjustment_def
      get_loglike_def get_logprior_def unpack_nodes_def unpack_cv_def copy_nodes_def
      copy_node_def prior_terms_def prior_term_def for_loop_upt dsub_def
      age_step_def age_terms_def binom_term_def delay_loop_def
      splines_def logistic_curve_def get_delay_density_def dmul64_10 dmul64_half lookup3_def index_of_int_def
      dgreater_def catch_underflow_def of_cint_def MH_ratio_def accept_move_def reject_move_def
      fixed_ext_def one_age_system_def one_age_particle_def one_age_theta_def
      empty_system_def empty_particle_def const_table_def)
qed

theorem update_param_metropolis_witness:
  "\<exists>p'. update_param fixed_ext one_age_system (Fin 1) 0 (one_age_particle, 0) = Inr (p', 2) \<and>
     accept_count p' = accept_count one_age_particle + 1 \<and>
     (\<exists>q::particle. theta p' = (theta one_age_particle)[0 := theta_prop q ! 0] \<and>
          phi p' = (phi one_age_particle)[0 := phi_prop q ! 0] \<and>
          loglike p' = loglike_prop q \<and> logprior p' = logprior_prop q)"
proof -
  from one_age_update_param obtain p' where
    run: "update_param fixed_ext one_age_system (Fin 1) 0 (one_age_particle, 0) = Inr (p', 2)"
    and acc: "accept_count p' = 1"
    by blast
  have ns: "0 < length (skip_param one_age_system)" "\<not> skip_param one_age_system ! 0"
    by (simp_all add: one_age_system_def)
  have a0: "accept_count one_age_particle = 0"
    by (simp add: one_age_particle_def empty_particle_def)
  from update_param_metropolis [OF run ns] obtain q :: particle and adj u where
    c: "if dless (dlog u)
            (dadd (dadd (dmul (Fin 1) (dsub (loglike_prop q) (loglike one_age_particle)))
                        (dsub (logprior_prop q) (logprior one_age_particle)))
                  adj)
       then theta p' = (theta one_age_particle)[0 := theta_prop q ! 0] \<and>
            phi p' = (phi one_age_particle)[0 := phi_prop q ! 0] \<and>
            loglike p' = loglike_prop q \<and> logprior p' = logprior_prop q \<and>
            accept_count p' = accept_count one_age_particle + 1
       else theta p' = theta one_age_particle \<and> phi p' = phi one_age_particle \<and>
            loglike p' = loglike one_age_particle \<and>
            logprior p' = logprior one_age_particle \<and>
            accept_count p' = accept_count one_age_particle"
    by (elim exE conjE) (rule that, assumption)
  from acc a0 have "accept_count p' \<noteq> accept_count one_age_particle" by simp
  with c have t: "theta p' = (theta one_age_particle)[0 := theta_prop q ! 0] \<and>
            phi p' = (phi one_age_particle)[0 := phi_prop q ! 0] \<and>
            loglike p' = loglike_prop q \<and> logprior p' = logprior_prop q"
    and a: "accept_count p' = accept_count one_age_particle + 1"
    by (simp_all split: if_splits)
  have "\<exists>q::particle. theta p' = (theta one_age_particle)[0 := theta_prop q ! 0] \<and>
            phi p' = (phi one_age_particle)[0 := phi_prop q ! 0] \<and>
            loglike p' = loglike_prop q \<and> logprior p' = logprior_prop q"
    by (rule exI [of _ q]) (rule t)
  with run a show ?thesis
    by (intro exI [of _ p']) simp
qed

text \<open>
  C4. In a step for a parameter \<open>i\<close> that is not skipped, \<open>bw_index[i]\<close> grows by exactly
  one in either branch, and \<open>bw[i]\<close> becomes
  \<open>exp(log(bw[i]) + bw_stepsize*(1-0.234)/sqrt(bw_index[i]))\<close> on acceptance (the branch
  that increments \<open>accept_count\<close>) and
  \<open>exp(log(bw[i]) - bw_stepsize*0.234/sqrt(bw_index[i]))\<close> on rejection; no other scale or
  counter changes. For a positive scale and counter these are the real numbers
  \<open>exp(ln b + s*(1-0.234)/sqrt k)\<close> and \<open>exp(ln b - s*0.234/sqrt k)\<close>.
\<close>

theorem update_param_adaptation:
  fixes ext :: "'g ext"
  assumes run: "update_param ext sys beta i (p, g) = Inr (p', g')"
    and ns: "i < length (skip_param sys)" "\<not> skip_param sys ! i"
  shows "i < length (bw p) \<and> i < length (bw_index p) \<and>
     (accept_count p' = accept_count p + 1 \<or> accept_count p' = accept_count p) \<and>
     bw_index p' = (bw_index p)[i := bw_index p ! i + 1] \<and>
     bw_stepsize p' = bw_stepsize p \<and>
     bw p' = (bw p)[i :=
        if accept_count p' = accept_count p + 1
        then dexp (dadd (dlog (bw p ! i))
               (ddiv (dmul (bw_stepsize p) (Fin (1 - 0.234))) (dsqrt (of_cint (bw_index p ! i)))))
        else dexp (dsub (dlog (bw p ! i))
               (ddiv (dmul (bw_stepsize p) (Fin 0.234)) (dsqrt (of_cint (bw_index p ! i)))))] \<and>
     (\<forall>b s. bw p ! i = Fin b \<and> 0 < b \<and> bw_stepsize p = Fin s \<and> 0 < bw_index p ! i \<longrightarrow>
        bw p' ! i =
          Fin (if accept_count p' = accept_count p + 1
               then exp (ln b + s * (1 - 0.234) / sqrt (real_of_int (bw_index p ! i)))
               else exp (ln b - s * 0.234 / sqrt (real_of_int (bw_index p ! i)))))"
proof -
  from update_param_stages [OF run ns] obtain q :: particle and adj where
    keep: "accept_count q = accept_count p" "bw q = bw p" "bw_index q = bw_index p"
      "bw_stepsize q = bw_stepsize p"
    and fin: "if dless (dlog (fst (runif_0_1 ext (snd (rnorm1 ext g (phi p ! i) (bw p ! i))))))
             (MH_ratio beta q adj)
       then accept_move i q = Inr p' else reject_move i q = Inr p'"
    by blast
  let ?A = "dexp (dadd (dlog (bw p ! i))
      (ddiv (dmul (bw_stepsize p) (Fin (1 - 0.234))) (dsqrt (of_cint (bw_index p ! i)))))"
  let ?R = "dexp (dsub (dlog (bw p ! i))
      (ddiv (dmul (bw_stepsize p) (Fin 0.234)) (dsqrt (of_cint (bw_index p ! i)))))"
  have main: "i < length (bw p) \<and> i < length (bw_index p) \<and>
     (accept_count p' = accept_count p + 1 \<or> accept_count p' = accept_count p) \<and>
     bw_index p' = (bw_index p)[i := bw_index p ! i + 1] \<and>
     bw_stepsize p' = bw_stepsize p \<and>
     bw p' = (bw p)[i := if accept_count p' = accept_count p + 1 then ?A else ?R]"
  proof (cases "dless (dlog (fst (runif_0_1 ext (snd (rnorm1 ext g (phi p ! i) (bw p ! i))))))
             (MH_ratio beta q adj)")
    case True
    with fin have "accept_move i q = Inr p'" by simp
    from accept_move_result [OF this] keep show ?thesis by auto
  next
    case False
    with fin have "reject_move i q = Inr p'" by simp
    from reject_move_result [OF this] keep show ?thesis by auto
  qed
  have reals: "bw p' ! i =
          Fin (if accept_count p' = accept_count p + 1
               then exp (ln b + s * (1 - 0.234) / sqrt (real_of_int (bw_index p ! i)))
               else exp (ln b - s * 0.234 / sqrt (real_of_int (bw_index p ! i))))"
    if h: "bw p ! i = Fin b \<and> 0 < b \<and> bw_stepsize p = Fin s \<and> 0 < bw_index p ! i" for b s
  proof -
    from h have k: "sqrt (real_of_int (bw_index p ! i)) \<noteq> 0"
      "\<not> real_of_int (bw_index p ! i) < 0"
      by simp_all
    from main have "bw p' ! i = (if accept_count p' = accept_count p + 1 then ?A else ?R)"
      by simp
    with h k show ?thesis
      by (simp add: of_cint_def dsub_def)
  qed
  from main reals show ?thesis by blast
qed

theorem update_param_adaptation_witness:
  "\<exists>p'. update_param fixed_ext one_age_system (Fin 1) 0 (one_age_particle, 0) = Inr (p', 2) \<and>
     bw_index p' = (bw_index one_age_particle)[0 := 2] \<and>
     bw p' = (bw one_age_particle)[0 := Fin (exp (1 - 0.234))]"
proof -
  from one_age_update_param obtain p' where
    run: "update_param fixed_ext one_age_system (Fin 1) 0 (one_age_particle, 0) = Inr (p', 2)"
    and acc: "accept_count p' = 1"
    by blast
  have ns: "0 < length (skip_param one_age_system)" "\<not> skip_param one_age_system ! 0"
    by (simp_all add: one_age_system_def)
  have v: "accept_count one_age_particle = 0" "bw one_age_particle ! 0 = Fin 1"
    "bw_index one_age_particle ! 0 = 1" "bw_stepsize one_age_particle = Fin 1"
    by (simp_all add: one_age_particle_def empty_particle_def)
  note t = update_param_adaptation [OF run ns]
  note t [THEN conjunct2, THEN conjunct2, THEN conjunct2, THEN conjunct1]
    t [THEN conjunct2, THEN conjunct2, THEN conjunct2, THEN conjunct2, THEN conjunct2,
       THEN conjunct1]
  then have "bw_index p' = (bw_index one_age_particle)[0 := 2]"
    and "bw p' = (bw one_age_particle)[0 := Fin (exp (1 - 0.234))]"
    using acc v by (simp_all add: of_cint_def)
  with run show ?thesis
    by (intro exI [of _ p']) simp
qed

end
